theory Spec2Isabelle
  imports Complex_Main "HOL-Library.Sublist"
begin

section \<open>Data model (src/types.ts)\<close>

text \<open>
  A JavaScript string is modelled as a \<^typ>\<open>string\<close>: a list of characters, each standing
  for one code unit below 256. JavaScript numbers are idealised as \<^typ>\<open>real\<close>.
\<close>

record DocumentContent =
  name :: string
  content :: string
  mimeType :: string

text \<open>
  The value \<open>JSON.parse\<close> returns. An object is the association list of its own properties,
  each name once.
  A value of type \<open>any\<close> that may also be \<open>undefined\<close> is a \<open>json option\<close>, with \<open>None\<close> for
  \<open>undefined\<close>.
\<close>

datatype json =
    JNull
  | JBool bool
  | JNum real
  | JStr string
  | JArr "json list"
  | JObj "(string \<times> json) list"

text \<open>
  The interface \<open>ComparisonResult\<close> declares \<open>similarity: number\<close> and
  \<open>matched_sentences: string[]\<close>. TypeScript erases the types at run time, and \<open>analyzePair\<close>
  stores unchecked properties of an \<open>any\<close> value in both fields, so the record is polymorphic
  in them: \<open>(real, string list) ComparisonResult\<close> is the declared type,
  \<open>(json option, json option) ComparisonResult\<close> is what \<open>analyzePair\<close> builds.
\<close>

record ('n, 's) ComparisonResult =
  file1 :: string
  file2 :: string
  similarity :: 'n
  matched_sentences :: 's

section \<open>Pair generation (checkPlagiarism, lines 214-219)\<close>

text \<open>
  \<^verbatim>\<open>
  const pairs = [];
  for (let i = 0; i < documents.length; i++) {
      for (let j = i + 1; j < documents.length; j++) {
          pairs.push([documents[i], documents[j]]);
      }
  }
  \<close>
  Each loop is a recursive function over its counter; the array \<open>pairs\<close> is passed through.
  Both indices stay below \<open>documents.length\<close>, so no read is out of range.
\<close>

function pairs_inner :: "'a list \<Rightarrow> nat \<Rightarrow> nat \<Rightarrow> ('a \<times> 'a) list \<Rightarrow> ('a \<times> 'a) list" where
  "pairs_inner documents i j pairs =
     (if j < length documents
      then pairs_inner documents i (j + 1) (pairs @ [(documents ! i, documents ! j)])
      else pairs)"
  by pat_completeness auto
termination
  by (relation "measure (\<lambda>(documents, i, j, pairs). length documents - j)") auto

function pairs_outer :: "'a list \<Rightarrow> nat \<Rightarrow> ('a \<times> 'a) list \<Rightarrow> ('a \<times> 'a) list" where
  "pairs_outer documents i pairs =
     (if i < length documents
      then pairs_outer documents (i + 1) (pairs_inner documents i (i + 1) pairs)
      else pairs)"
  by pat_completeness auto
termination
  by (relation "measure (\<lambda>(documents, i, pairs). length documents - i)") auto

definition generate_pairs :: "'a list \<Rightarrow> ('a \<times> 'a) list" where
  "generate_pairs documents = pairs_outer documents 0 []"

text \<open>The lexicographic order on index pairs.\<close>

definition lex_less :: "nat \<times> nat \<Rightarrow> nat \<times> nat \<Rightarrow> bool" where
  "lex_less p q = (fst p < fst q \<or> (fst p = fst q \<and> snd p < snd q))"

section \<open>The analysis provider (the calls to ai.models.generateContent)\<close>

text \<open>
  The three shapes of request the service sends. The inline data of a document is its
  \<open>mimeType\<close> and its \<open>content\<close>; the online request carries the text to analyse (the fixed
  prompt in front of it is left out).
\<close>

type_synonym inlineData = "string \<times> string"

definition inline :: "DocumentContent \<Rightarrow> inlineData" where
  "inline doc = (mimeType doc, content doc)"

datatype request =
    ExtractRequest inlineData
  | PairRequest inlineData inlineData
  | OnlineRequest string

text \<open>
  What the service reads of a response: \<open>response.text\<close> (the field \<open>responseText\<close>),
  which may be undefined, and
  \<open>response.candidates?.[0]?.groundingMetadata?.groundingChunks\<close>, which is \<open>None\<close> when a link
  of the optional chain is absent. A chunk has an optional \<open>web\<close> part with an optional \<open>uri\<close>
  and an optional \<open>title\<close>.
\<close>

record GroundingChunkWeb =
  uri :: "string option"
  title :: "string option"

record GroundingChunk =
  web :: "GroundingChunkWeb option"

record GenerateContentResponse =
  responseText :: "string option"
  groundingChunks :: "GroundingChunk list option"

text \<open>
  A call either rejects with an error message (\<open>Inl\<close>) or resolves with a response.
  Every function that calls the provider returns the requests it has sent next to its result,
  so that a run without any call is a run with the empty request list.
\<close>

type_synonym provider = "request \<Rightarrow> string + GenerateContentResponse"

type_synonym 'a traced = "request list \<times> (string + 'a)"

record Source =
  uri :: string
  title :: string

record OnlineMatchedSentence =
  sentence :: string

record OnlineComparisonResult =
  file1 :: string
  similarity :: real
  matched_sentences :: "OnlineMatchedSentence list"
  sources :: "Source list"

text \<open>The union \<open>ComparisonResult | OnlineComparisonResult\<close>.\<close>

datatype ('n, 's) result =
    PairResult "('n, 's) ComparisonResult"
  | OnlineResult OnlineComparisonResult

section \<open>Strings: white space and trim\<close>

text \<open>
  The characters that \<open>\s\<close> and \<open>String.prototype.trim\<close> treat as white space, among the code
  units below 256: tab, line feed, vertical tab, form feed, carriage return, space and the
  no-break space.
\<close>

definition is_space :: "char \<Rightarrow> bool" where
  "is_space c =
     (c = CHR 0x09 \<or> c = CHR 0x0A \<or> c = CHR 0x0B \<or> c = CHR 0x0C \<or> c = CHR 0x0D \<or>
      c = CHR 0x20 \<or> c = CHR 0xA0)"

definition trim :: "string \<Rightarrow> string" where
  "trim s = rev (dropWhile is_space (rev (dropWhile is_space s)))"

section \<open>extractJsonFromText (lines 35-56)\<close>

text \<open>
  \<^verbatim>\<open>const jsonRegex = /```json\s*([\s\S]*?)\s*```|({[\s\S]*})/;\<close>

  The pattern is matched the way a backtracking matcher runs it. Each function below reads
  the text from the place the matcher has reached and follows the matcher's order of tries.

  \<open>ws_then_fence\<close> is the tail \<open>\s*```\<close>: the greedy \<open>\s*\<close> first takes one more white space
  character, and gives it back when the rest fails.
\<close>

fun ws_then_fence :: "string \<Rightarrow> bool" where
  "ws_then_fence [] = False"
| "ws_then_fence (c # s) = ((is_space c \<and> ws_then_fence s) \<or> prefix ''```'' (c # s))"

text \<open>
  \<open>lazy_group\<close> is \<open>([\s\S]*?)\s*```\<close>: the lazy group first tries to stop, and takes one more
  character (any character) when the rest fails. The result is the text of group 1.
\<close>

fun lazy_group :: "string \<Rightarrow> string option" where
  "lazy_group [] = None"
| "lazy_group (c # s) =
     (if ws_then_fence (c # s) then Some [] else map_option ((#) c) (lazy_group s))"

text \<open>\<open>after_open\<close> is \<open>\s*([\s\S]*?)\s*```\<close>, what follows the opening fence.\<close>

fun after_open :: "string \<Rightarrow> string option" where
  "after_open [] = lazy_group []"
| "after_open (c # s) =
     (if is_space c
      then (case after_open s of Some g \<Rightarrow> Some g | None \<Rightarrow> lazy_group (c # s))
      else lazy_group (c # s))"

definition fenced :: "string \<Rightarrow> string option" where
  "fenced t = (if prefix ''```json'' t then after_open (drop 7 t) else None)"

text \<open>
  \<open>greedy_to_brace\<close> is \<open>[\s\S]*}\<close>: the greedy star first takes one more character, and
  when the rest fails it stops and asks for the closing brace here. \<open>object_span\<close> is the
  second alternative \<open>({[\s\S]*})\<close>; its result is the text of group 2.
\<close>

fun greedy_to_brace :: "string \<Rightarrow> string option" where
  "greedy_to_brace [] = None"
| "greedy_to_brace (c # s) =
     (case greedy_to_brace s of
        Some g \<Rightarrow> Some (c # g)
      | None \<Rightarrow> if c = CHR ''}'' then Some [c] else None)"

fun object_span :: "string \<Rightarrow> string option" where
  "object_span [] = None"
| "object_span (c # s) =
     (if c = CHR ''{'' then map_option ((#) c) (greedy_to_brace s) else None)"

text \<open>
  A match that starts here: the first alternative is tried before the second. The result is
  the pair of groups \<open>(match[1], match[2])\<close>, \<open>None\<close> for a group that took no part.
\<close>

definition match_here :: "string \<Rightarrow> (string option \<times> string option) option" where
  "match_here t =
     (case fenced t of
        Some g \<Rightarrow> Some (Some g, None)
      | None \<Rightarrow> (case object_span t of Some g \<Rightarrow> Some (None, Some g) | None \<Rightarrow> None))"

text \<open>\<open>text.match(jsonRegex)\<close>, without the global flag: the match at the leftmost start.\<close>

fun regex_match :: "string \<Rightarrow> (string option \<times> string option) option" where
  "regex_match [] = match_here []"
| "regex_match (c # s) =
     (case match_here (c # s) of Some m \<Rightarrow> Some m | None \<Rightarrow> regex_match s)"

text \<open>
  \<open>a || b\<close> on strings that may be undefined: \<open>a\<close> when it is defined and not empty.
\<close>

definition js_or :: "string option \<Rightarrow> string option \<Rightarrow> string option" where
  "js_or a b = (case a of Some s \<Rightarrow> if s \<noteq> [] then Some s else b | None \<Rightarrow> b)"

text \<open>
  Lines 36 to 42: the string that reaches the \<open>try\<close> block, if any.
  \<^verbatim>\<open>
  const match = text.match(jsonRegex);
  if (match) {
      let jsonString = match[1] || match[2];
      if (jsonString) { ... }
  }
  \<close>
\<close>

definition json_candidate :: "string \<Rightarrow> string option" where
  "json_candidate t =
     (case regex_match t of
        Some (g1, g2) \<Rightarrow>
          (case js_or g1 g2 of
             Some jsonString \<Rightarrow> if jsonString \<noteq> [] then Some jsonString else None
           | None \<Rightarrow> None)
      | None \<Rightarrow> None)"

text \<open>
  \<^verbatim>\<open>jsonString.replace(/,\s*([}\]])/g, '$1')\<close>

  \<open>closer_after_ws\<close> is \<open>\s*([}\]])\<close>: it gives group 1 and the text after the match.
  \<open>strip_trailing_commas\<close> is the global replace: where the pattern matches at a comma, the
  match is replaced by group 1 and the scan goes on after the match; elsewhere the character
  is kept.
\<close>

fun closer_after_ws :: "string \<Rightarrow> (char \<times> string) option" where
  "closer_after_ws [] = None"
| "closer_after_ws (c # s) =
     (case (if is_space c then closer_after_ws s else None) of
        Some r \<Rightarrow> Some r
      | None \<Rightarrow> if c = CHR ''}'' \<or> c = CHR '']'' then Some (c, s) else None)"

lemma closer_after_ws_length:
  "closer_after_ws s = Some (d, rest) \<Longrightarrow> length rest < length s"
  by (induction s) (auto split: if_splits option.splits)

function strip_trailing_commas :: "string \<Rightarrow> string" where
  "strip_trailing_commas [] = []"
| "strip_trailing_commas (c # s) =
     (if c = CHR '',''
      then (case closer_after_ws s of
              Some (d, rest) \<Rightarrow> d # strip_trailing_commas rest
            | None \<Rightarrow> c # strip_trailing_commas s)
      else c # strip_trailing_commas s)"
  by pat_completeness auto
termination
  by (relation "measure length") (auto dest: closer_after_ws_length)

text \<open>
  Lines 43 to 50, the \<open>try\<close> block. \<open>JSON.parse\<close> is the parameter \<open>parse\<close>; it gives \<open>None\<close>
  where \<open>JSON.parse\<close> throws.
\<close>

definition sanitize_and_parse :: "(string \<Rightarrow> json option) \<Rightarrow> string \<Rightarrow> string + json" where
  "sanitize_and_parse parse jsonString =
     (case parse (strip_trailing_commas jsonString) of
        Some v \<Rightarrow> Inr v
      | None \<Rightarrow> Inl ''API returned malformed JSON.'')"

definition extractJsonFromText :: "(string \<Rightarrow> json option) \<Rightarrow> string \<Rightarrow> string + json" where
  "extractJsonFromText parse t =
     (case json_candidate t of
        Some jsonString \<Rightarrow> sanitize_and_parse parse jsonString
      | None \<Rightarrow> Inl ''Received a non-JSON response from the API.'')"

text \<open>
  Where the two alternatives of the pattern can match, said without the matcher. The first
  alternative matches at index \<open>k\<close> when the opening fence stands there and three backticks
  occur somewhere after it; the second when an opening brace stands there and a closing brace
  occurs somewhere after it.
\<close>

definition fence_at :: "string \<Rightarrow> nat \<Rightarrow> bool" where
  "fence_at t k = (prefix ''```json'' (drop k t) \<and> sublist ''```'' (drop (k + 7) t))"

definition brace_span_at :: "string \<Rightarrow> nat \<Rightarrow> bool" where
  "brace_span_at t k = (k < length t \<and> t ! k = CHR ''{'' \<and> CHR ''}'' \<in> set (drop (Suc k) t))"

section \<open>Reading properties of a parsed value\<close>

text \<open>
  \<open>v.key\<close> on a value of type \<open>any\<close>, for the keys the service reads (\<open>similarity\<close>,
  \<open>matched_sentences\<close>, \<open>sentence\<close>): on \<open>null\<close> the read throws a TypeError (\<open>Inl\<close>); on an
  object it gives the property, or \<open>undefined\<close> when the object has none of that name; on a
  boolean, a number, a string or an array it gives \<open>undefined\<close>.
\<close>

fun get_prop :: "json \<Rightarrow> string \<Rightarrow> string + json option" where
  "get_prop JNull key = Inl ''TypeError''"
| "get_prop (JObj properties) key = Inr (map_of properties key)"
| "get_prop v key = Inr None"

text \<open>The truth value of a parsed value in a condition.\<close>

fun truthy :: "json \<Rightarrow> bool" where
  "truthy JNull = False"
| "truthy (JBool b) = b"
| "truthy (JNum x) = (x \<noteq> 0)"
| "truthy (JStr s) = (s \<noteq> [])"
| "truthy v = True"

section \<open>extractTextFromDoc (lines 59-81)\<close>

text \<open>
  The error thrown inside the \<open>try\<close> block for an empty text is caught by the same \<open>catch\<close>
  block as a rejected call, and wrapped by it.
\<close>

definition extract_failure :: "DocumentContent \<Rightarrow> string \<Rightarrow> string" where
  "extract_failure doc errorMessage =
     ''Failed to extract text from file: '' @ name doc @ ''. API Error: '' @ errorMessage"

definition no_text_message :: "DocumentContent \<Rightarrow> string" where
  "no_text_message doc =
     ''The API failed to extract any text from the file: '' @ name doc @
     ''. The file might be empty, password-protected, or in an unsupported format.''"

definition extractTextFromDoc :: "provider \<Rightarrow> DocumentContent \<Rightarrow> string traced" where
  "extractTextFromDoc ai doc =
     ([ExtractRequest (inline doc)],
      case ai (ExtractRequest (inline doc)) of
        Inl errorMessage \<Rightarrow> Inl (extract_failure doc errorMessage)
      | Inr response \<Rightarrow>
          (case responseText response of
             None \<Rightarrow> Inl (extract_failure doc (no_text_message doc))
           | Some t \<Rightarrow>
               if t = [] \<or> length (trim t) = 0
               then Inl (extract_failure doc (no_text_message doc))
               else Inr t))"

section \<open>analyzePair (lines 84-126)\<close>

definition pair_failure :: "DocumentContent \<Rightarrow> DocumentContent \<Rightarrow> string" where
  "pair_failure doc1 doc2 =
     ''Failed to analyze documents: '' @ name doc1 @ '' and '' @ name doc2 @
     ''. The API returned an error.''"

text \<open>
  Everything that throws inside the \<open>try\<close> block ends in the one message of the \<open>catch\<close> block:
  a rejected call, \<open>response.text\<close> undefined (\<open>.trim()\<close> throws), \<open>JSON.parse\<close> throwing, and
  the property read on \<open>null\<close>. Nothing checks the two properties that are read.
\<close>

definition analyzePair ::
  "(string \<Rightarrow> json option) \<Rightarrow> provider \<Rightarrow> DocumentContent \<Rightarrow> DocumentContent \<Rightarrow>
     (json option, json option) ComparisonResult traced" where
  "analyzePair parse ai doc1 doc2 =
     ([PairRequest (inline doc1) (inline doc2)],
      case ai (PairRequest (inline doc1) (inline doc2)) of
        Inl e \<Rightarrow> Inl (pair_failure doc1 doc2)
      | Inr response \<Rightarrow>
          (case responseText response of
             None \<Rightarrow> Inl (pair_failure doc1 doc2)
           | Some t \<Rightarrow>
               (case parse (trim t) of
                  None \<Rightarrow> Inl (pair_failure doc1 doc2)
                | Some parsed \<Rightarrow>
                    (case get_prop parsed ''similarity'' of
                       Inl e \<Rightarrow> Inl (pair_failure doc1 doc2)
                     | Inr sim \<Rightarrow>
                         (case get_prop parsed ''matched_sentences'' of
                            Inl e \<Rightarrow> Inl (pair_failure doc1 doc2)
                          | Inr sentences \<Rightarrow>
                              Inr \<lparr>ComparisonResult.file1 = name doc1,
                                   file2 = name doc2,
                                   ComparisonResult.similarity = sim,
                                   ComparisonResult.matched_sentences = sentences\<rparr>)))))"

section \<open>analyzeContentOnline (lines 128-197)\<close>

text \<open>Lines 165 to 173: the callback of \<open>rawSentences.map\<close>.\<close>

definition normalizeSentence :: "json \<Rightarrow> OnlineMatchedSentence" where
  "normalizeSentence item =
     (case item of
        JStr s \<Rightarrow> \<lparr>sentence = s\<rparr>
      | _ \<Rightarrow>
          (if truthy item
           then (case get_prop item ''sentence'' of
                   Inr (Some (JStr s)) \<Rightarrow> \<lparr>sentence = s\<rparr>
                 | _ \<Rightarrow> \<lparr>sentence = ''[Error: Could not parse sentence]''\<rparr>)
           else \<lparr>sentence = ''[Error: Could not parse sentence]''\<rparr>))"

text \<open>
  Line 175: \<open>response.candidates?.[0]?.groundingMetadata?.groundingChunks ?? []\<close>.
\<close>

definition response_chunks :: "GenerateContentResponse \<Rightarrow> GroundingChunk list" where
  "response_chunks response =
     (case groundingChunks response of None \<Rightarrow> [] | Some chunks \<Rightarrow> chunks)"

text \<open>
  Lines 177 to 182. \<open>chunk.web?.uri || ''\<close> and \<open>chunk.web?.title || 'Untitled'\<close>: the default
  stands in for an absent \<open>web\<close>, an absent property and an empty string.
\<close>

definition or_default :: "string option \<Rightarrow> string \<Rightarrow> string" where
  "or_default a b = (case a of Some s \<Rightarrow> if s \<noteq> [] then s else b | None \<Rightarrow> b)"

definition chunk_uri :: "GroundingChunk \<Rightarrow> string option" where
  "chunk_uri chunk = (case web chunk of None \<Rightarrow> None | Some w \<Rightarrow> GroundingChunkWeb.uri w)"

definition chunk_title :: "GroundingChunk \<Rightarrow> string option" where
  "chunk_title chunk = (case web chunk of None \<Rightarrow> None | Some w \<Rightarrow> GroundingChunkWeb.title w)"

definition chunk_source :: "GroundingChunk \<Rightarrow> Source" where
  "chunk_source chunk =
     \<lparr>uri = or_default (chunk_uri chunk) [], title = or_default (chunk_title chunk) ''Untitled''\<rparr>"

definition grounding_sources :: "GroundingChunk list \<Rightarrow> Source list" where
  "grounding_sources chunks = filter (\<lambda>source. uri source \<noteq> []) (map chunk_source chunks)"

text \<open>
  A JavaScript \<open>Map\<close> is the list of its entries in insertion order. \<open>Map_set\<close> replaces the
  value of a key that is present, in place, and appends a new key; \<open>new_Map\<close> sets the entries
  one after the other; \<open>Map_values\<close> lists the values in insertion order.
\<close>

fun Map_set :: "'k \<Rightarrow> 'v \<Rightarrow> ('k \<times> 'v) list \<Rightarrow> ('k \<times> 'v) list" where
  "Map_set k v [] = [(k, v)]"
| "Map_set k v ((k', v') # m) = (if k' = k then (k, v) # m else (k', v') # Map_set k v m)"

definition new_Map :: "('k \<times> 'v) list \<Rightarrow> ('k \<times> 'v) list" where
  "new_Map entries = foldl (\<lambda>m (k, v). Map_set k v m) [] entries"

definition Map_values :: "('k \<times> 'v) list \<Rightarrow> 'v list" where
  "Map_values m = map snd m"

text \<open>
  Line 184:
  \<^verbatim>\<open>Array.from(new Map(sources.map(item => [item.uri, item])).values())\<close>
\<close>

definition uniqueSources :: "Source list \<Rightarrow> Source list" where
  "uniqueSources sourceList = Map_values (new_Map (map (\<lambda>item. (uri item, item)) sourceList))"

text \<open>
  For comparison with \<open>uniqueSources\<close>: a list without its repetitions, each element kept
  where it occurs first.
\<close>

fun first_occurrences :: "'a list \<Rightarrow> 'a list" where
  "first_occurrences [] = []"
| "first_occurrences (x # xs) = x # filter (\<lambda>y. y \<noteq> x) (first_occurrences xs)"

definition online_failure :: "string \<Rightarrow> string" where
  "online_failure docName =
     ''Failed to analyze document '' @ docName @
     '' against online sources. The API returned an error.''"

text \<open>
  As in \<open>analyzePair\<close>, every throw inside the \<open>try\<close> block ends in the one message of the
  \<open>catch\<close> block: a rejected call, \<open>response.text\<close> undefined (\<open>text.match\<close> throws), the two
  errors of \<open>extractJsonFromText\<close>, the property read on \<open>null\<close>, and the format check of
  line 160.
\<close>

definition analyzeContentOnline ::
  "(string \<Rightarrow> json option) \<Rightarrow> provider \<Rightarrow> string \<Rightarrow> string \<Rightarrow> OnlineComparisonResult traced" where
  "analyzeContentOnline parse ai docName textContent =
     ([OnlineRequest textContent],
      case ai (OnlineRequest textContent) of
        Inl e \<Rightarrow> Inl (online_failure docName)
      | Inr response \<Rightarrow>
          (case responseText response of
             None \<Rightarrow> Inl (online_failure docName)
           | Some t \<Rightarrow>
               (case extractJsonFromText parse t of
                  Inl e \<Rightarrow> Inl (online_failure docName)
                | Inr parsed \<Rightarrow>
                    (case get_prop parsed ''matched_sentences'' of
                       Inl e \<Rightarrow> Inl (online_failure docName)
                     | Inr rawSentences \<Rightarrow>
                         (case (get_prop parsed ''similarity'', rawSentences) of
                            (Inr (Some (JNum sim)), Some (JArr items)) \<Rightarrow>
                              Inr \<lparr>file1 = docName,
                                   similarity = sim,
                                   matched_sentences = map normalizeSentence items,
                                   sources =
                                     uniqueSources
                                       (grounding_sources (response_chunks response))\<rparr>
                          | _ \<Rightarrow> Inl (online_failure docName))))))"

section \<open>Promise.all\<close>

text \<open>
  \<open>Promise.all\<close> over promises whose outcomes are \<open>outcomes\<close> (\<open>Inl\<close> a rejection, \<open>Inr\<close> a
  value). The promises settle in the order \<open>schedule\<close>, a list of indices. When promise \<open>k\<close>
  is fulfilled its value is stored at index \<open>k\<close> of the array of values, and the whole
  resolves with that array once no element is missing; the first rejection rejects the whole.
  An index out of range, or one that has settled before, does nothing. The result is \<open>None\<close>
  while the whole is still pending at the end of the schedule. The empty list of promises
  resolves at once.
\<close>

fun settle_all :: "(string + 'a) list \<Rightarrow> nat list \<Rightarrow> 'a option list \<Rightarrow> (string + 'a list) option" where
  "settle_all outcomes [] vals = None"
| "settle_all outcomes (k # schedule) vals =
     (if k < length outcomes \<and> vals ! k = None
      then (case outcomes ! k of
              Inl reason \<Rightarrow> Some (Inl reason)
            | Inr v \<Rightarrow>
                (if None \<notin> set (vals[k := Some v])
                 then Some (Inr (map the (vals[k := Some v])))
                 else settle_all outcomes schedule (vals[k := Some v])))
      else settle_all outcomes schedule vals)"

definition Promise_all :: "nat list \<Rightarrow> (string + 'a) list \<Rightarrow> (string + 'a list) option" where
  "Promise_all schedule outcomes =
     (if outcomes = [] then Some (Inr [])
      else settle_all outcomes schedule (replicate (length outcomes) None))"

section \<open>checkPlagiarism and checkPastedTextPlagiarism (lines 200-228)\<close>

text \<open>
  The provider's answers are given per work item: \<open>ai k\<close> answers the calls of the work item
  with index \<open>k\<close> (the \<open>k\<close>-th document in online mode, the \<open>k\<close>-th pair otherwise), so that
  two work items may get different answers to the same request.

  \<open>online_item\<close> is the callback of line 203; \<open>pair_item\<close> is the callback of line 221.
\<close>

definition online_item ::
  "(string \<Rightarrow> json option) \<Rightarrow> provider \<Rightarrow> DocumentContent \<Rightarrow>
     (json option, json option) result traced" where
  "online_item parse ai doc =
     (case extractTextFromDoc ai doc of
        (calls, Inl e) \<Rightarrow> (calls, Inl e)
      | (calls, Inr textContent) \<Rightarrow>
          (case analyzeContentOnline parse ai (name doc) textContent of
             (calls', r) \<Rightarrow> (calls @ calls', map_sum id OnlineResult r)))"

definition pair_item ::
  "(string \<Rightarrow> json option) \<Rightarrow> provider \<Rightarrow> DocumentContent \<times> DocumentContent \<Rightarrow>
     (json option, json option) result traced" where
  "pair_item parse ai p =
     (case analyzePair parse ai (fst p) (snd p) of (calls, r) \<Rightarrow> (calls, map_sum id PairResult r))"

text \<open>
  The result is the list of requests sent, grouped by work item in the order of the work
  items, and the outcome of the promise that \<open>checkPlagiarism\<close> returns.
\<close>

definition run_items ::
  "nat list \<Rightarrow> 'r traced list \<Rightarrow> request list \<times> (string + 'r list) option" where
  "run_items schedule items = (concat (map fst items), Promise_all schedule (map snd items))"

definition checkPlagiarism ::
  "(string \<Rightarrow> json option) \<Rightarrow> (nat \<Rightarrow> provider) \<Rightarrow> nat list \<Rightarrow> DocumentContent list \<Rightarrow> bool \<Rightarrow>
     request list \<times> (string + (json option, json option) result list) option" where
  "checkPlagiarism parse ai schedule documents isOnlineCheck =
     (if isOnlineCheck
      then (if length documents < 1 then ([], Some (Inr []))
            else run_items schedule
                   (map (\<lambda>(k, doc). online_item parse (ai k) doc) (enumerate 0 documents)))
      else if length documents < 2 then ([], Some (Inr []))
      else run_items schedule
             (map (\<lambda>(k, p). pair_item parse (ai k) p) (enumerate 0 (generate_pairs documents))))"

definition checkPastedTextPlagiarism ::
  "(string \<Rightarrow> json option) \<Rightarrow> provider \<Rightarrow> string \<Rightarrow> OnlineComparisonResult traced" where
  "checkPastedTextPlagiarism parse ai t = analyzeContentOnline parse ai ''Pasted Text'' t"

section \<open>Example inputs\<close>

text \<open>
  Three documents, and a provider that answers the pair with index 0, 1 and 2 with the
  similarity 10, 50 and 90. \<open>example_parse\<close> is \<open>JSON.parse\<close> on the texts that occur in the
  examples; it is \<open>None\<close> on every other text.
\<close>

definition example_documents :: "DocumentContent list" where
  "example_documents =
     [\<lparr>name = ''a.txt'', content = ''QQ=='', mimeType = ''text/plain''\<rparr>,
      \<lparr>name = ''b.txt'', content = ''Qg=='', mimeType = ''text/plain''\<rparr>,
      \<lparr>name = ''c.txt'', content = ''Qw=='', mimeType = ''text/plain''\<rparr>]"

definition example_object :: "real \<Rightarrow> json list \<Rightarrow> json" where
  "example_object sim items = JObj [(''similarity'', JNum sim), (''matched_sentences'', JArr items)]"

definition example_items :: "json list" where
  "example_items = [JStr ''plain'', JObj [(''sentence'', JStr ''wrapped'')], JObj [(''other'', JNum 1)]]"

definition example_parse :: "string \<Rightarrow> json option" where
  \<open>example_parse =
     [''{"similarity":10,"matched_sentences":[]}'' \<mapsto> example_object 10 [],
      ''{"similarity":50,"matched_sentences":[]}'' \<mapsto> example_object 50 [],
      ''{"similarity":90,"matched_sentences":[]}'' \<mapsto> example_object 90 [],
      ''{"similarity":150,"matched_sentences":[]}'' \<mapsto> example_object 150 [],
      ''{"similarity":10,"matched_sentences":["`x`"]}'' \<mapsto> example_object 10 [JStr ''`x`''],
      ''{"similarity":42,"matched_sentences":["plain",{"sentence":"wrapped"},{"other":1}]}'' \<mapsto>
        example_object 42 example_items]\<close>

definition example_pair_provider :: "nat \<Rightarrow> provider" where
  \<open>example_pair_provider k request =
     Inr \<lparr>responseText =
            Some (if k = 0 then ''{"similarity":10,"matched_sentences":[]}''
                  else if k = 1 then ''{"similarity":50,"matched_sentences":[]}''
                  else ''{"similarity":90,"matched_sentences":[]}''),
          groundingChunks = None\<rparr>\<close>

text \<open>The same provider, but the call of the work item with index 1 is rejected.\<close>

definition example_failing_provider :: "nat \<Rightarrow> provider" where
  "example_failing_provider k request =
     (if k = 1 then Inl ''quota exceeded'' else example_pair_provider k request)"

text \<open>
  An answer in online mode: prose around a fenced block with trailing commas, and grounding
  citations: two for the same address, one with an empty address, one without a title and
  one without a \<open>web\<close> part.
\<close>

definition example_chunks :: "GroundingChunk list" where
  "example_chunks =
     [\<lparr>web = Some \<lparr>GroundingChunkWeb.uri = Some ''a'', GroundingChunkWeb.title = Some ''A1''\<rparr>\<rparr>,
      \<lparr>web = Some \<lparr>GroundingChunkWeb.uri = Some ''a'', GroundingChunkWeb.title = Some ''A2''\<rparr>\<rparr>,
      \<lparr>web = Some \<lparr>GroundingChunkWeb.uri = Some [], GroundingChunkWeb.title = Some ''X''\<rparr>\<rparr>,
      \<lparr>web = Some \<lparr>GroundingChunkWeb.uri = Some ''b'', GroundingChunkWeb.title = Some ''B''\<rparr>\<rparr>]"

definition example_response_chunks :: "GroundingChunk list" where
  "example_response_chunks =
     example_chunks @
     [\<lparr>web = Some \<lparr>GroundingChunkWeb.uri = Some ''c'', GroundingChunkWeb.title = None\<rparr>\<rparr>,
      \<lparr>web = None\<rparr>]"

definition example_online_text :: string where
  \<open>example_online_text =
     ''Result: ```json\<newline>{"similarity":42,"matched_sentences":["plain",{"sentence":"wrapped"},{"other":1},],}\<newline>``` Done.''\<close>

definition example_online_provider :: provider where
  "example_online_provider request =
     Inr \<lparr>responseText = Some example_online_text,
          groundingChunks = Some example_response_chunks\<rparr>"

text \<open>
  Three documents of which two have the same name, and two providers: one rejects the call
  for the pair with index 1, the other the call for the pair with index 2.
\<close>

definition example_same_names :: "DocumentContent list" where
  "example_same_names =
     [\<lparr>name = ''a.txt'', content = ''QQ=='', mimeType = ''text/plain''\<rparr>,
      \<lparr>name = ''a.txt'', content = ''Qg=='', mimeType = ''text/plain''\<rparr>,
      \<lparr>name = ''c.txt'', content = ''Qw=='', mimeType = ''text/plain''\<rparr>]"

definition example_provider_failing_at :: "nat \<Rightarrow> nat \<Rightarrow> provider" where
  "example_provider_failing_at j k request =
     (if k = j then Inl ''quota exceeded'' else example_pair_provider k request)"

text \<open>
  A provider for online mode: every call of the work item with index 1 is rejected; for the
  other work items the text is extracted and the online answer is the one above.
\<close>

definition example_online_failing_provider :: "nat \<Rightarrow> provider" where
  "example_online_failing_provider k request =
     (if k = 1 then Inl ''quota exceeded''
      else (case request of
              ExtractRequest d \<Rightarrow> Inr \<lparr>responseText = Some ''Some text.'', groundingChunks = None\<rparr>
            | PairRequest d d' \<Rightarrow> Inl ''unused''
            | OnlineRequest t \<Rightarrow> example_online_provider (OnlineRequest t)))"

text \<open>
  An online answer with two citations for one address, the first of them without a title.
\<close>

definition example_untitled_first_provider :: provider where
  \<open>example_untitled_first_provider request =
     Inr \<lparr>responseText = Some ''{"similarity":10,"matched_sentences":[]}'',
          groundingChunks =
            Some [\<lparr>web = Some \<lparr>GroundingChunkWeb.uri = Some ''a'', GroundingChunkWeb.title = None\<rparr>\<rparr>,
                  \<lparr>web = Some \<lparr>GroundingChunkWeb.uri = Some ''a'',
                              GroundingChunkWeb.title = Some ''A2''\<rparr>\<rparr>]\<rparr>\<close>

section \<open>Pair generation: proofs\<close>

declare pairs_inner.simps [simp del]
declare pairs_outer.simps [simp del]

lemma pairs_inner_eq:
  "pairs_inner documents i j pairs =
     pairs @ map (\<lambda>j. (documents ! i, documents ! j)) [j..<length documents]"
proof (induction documents i j pairs rule: pairs_inner.induct)
  case (1 documents i j pairs)
  show ?case
  proof (cases "j < length documents")
    case True
    then show ?thesis
      using "1.IH" by (subst pairs_inner.simps) (simp add: upt_conv_Cons)
  next
    case False
    then show ?thesis
      by (subst pairs_inner.simps) simp
  qed
qed

lemma pairs_outer_eq:
  "pairs_outer documents i pairs =
     pairs @ concat (map (\<lambda>i. map (\<lambda>j. (documents ! i, documents ! j)) [Suc i..<length documents])
                         [i..<length documents])"
proof (induction documents i pairs rule: pairs_outer.induct)
  case (1 documents i pairs)
  show ?case
  proof (cases "i < length documents")
    case True
    then show ?thesis
      using "1.IH" by (subst pairs_outer.simps) (simp add: upt_conv_Cons pairs_inner_eq)
  next
    case False
    then show ?thesis
      by (subst pairs_outer.simps) simp
  qed
qed

lemma generate_pairs_eq:
  "generate_pairs documents =
     concat (map (\<lambda>i. map (\<lambda>j. (documents ! i, documents ! j)) [Suc i..<length documents])
                 [0..<length documents])"
  by (simp add: generate_pairs_def pairs_outer_eq)

lemma index_pairs_eq:
  "generate_pairs [0..<n] = concat (map (\<lambda>i. map (Pair i) [Suc i..<n]) [0..<n])"
proof -
  have h: "map (\<lambda>i. map (\<lambda>j. ([0..<n] ! i, [0..<n] ! j)) [Suc i..<n]) [0..<n]
      = map (\<lambda>i. map (Pair i) [Suc i..<n]) [0..<n]"
    by (rule map_cong) auto
  show ?thesis
    by (simp only: generate_pairs_eq length_upt diff_zero h)
qed

lemma generate_pairs_index:
  "generate_pairs documents =
     map (\<lambda>(i, j). (documents ! i, documents ! j)) (generate_pairs [0..<length documents])"
  by (subst index_pairs_eq) (simp add: generate_pairs_eq map_concat comp_def)

lemma set_index_pairs: "set (generate_pairs [0..<n]) = {(i, j). i < j \<and> j < n}"
  by (force simp: index_pairs_eq)

lemma triangle_step: "m + m * (m - 1) div 2 = Suc m * m div (2::nat)"
  by (induction m) auto

lemma length_rows:
  "length (concat (map (\<lambda>i. map (f i) [Suc i..<n]) [k..<n])) = (n - k) * (n - k - 1) div 2"
proof (induction "n - k" arbitrary: k)
  case 0
  then show ?case by simp
next
  case (Suc d)
  then have kn: "k < n" and d: "d = n - Suc k" by auto
  have "length (concat (map (\<lambda>i. map (f i) [Suc i..<n]) [k..<n]))
      = (n - Suc k) + length (concat (map (\<lambda>i. map (f i) [Suc i..<n]) [Suc k..<n]))"
    using kn by (simp add: upt_conv_Cons)
  also have "\<dots> = d + d * (d - 1) div 2"
    using Suc.hyps(1)[OF d] d by simp
  also have "\<dots> = Suc d * d div 2"
    by (rule triangle_step)
  also have "\<dots> = (n - k) * (n - k - 1) div 2"
    using Suc.hyps(2)[symmetric] by simp
  finally show ?case .
qed

lemma length_generate_pairs:
  "length (generate_pairs documents) = length documents * (length documents - 1) div 2"
  using length_rows[of "\<lambda>i j. (documents ! i, documents ! j)" "length documents" 0]
  by (simp add: generate_pairs_eq)

lemma sorted_rows:
  "sorted_wrt lex_less (concat (map (\<lambda>i. map (Pair i) [Suc i..<n]) [k..<m]))"
proof (induction "m - k" arbitrary: k)
  case 0
  then show ?case by simp
next
  case (Suc d)
  then have km: "k < m" and d: "d = m - Suc k" by auto
  have row: "sorted_wrt lex_less (map (Pair k) [Suc k..<n])"
    by (simp add: sorted_wrt_map lex_less_def)
  show ?case
    using km Suc.hyps(1)[OF d] row
    by (auto simp: upt_conv_Cons sorted_wrt_append lex_less_def)
qed

lemma lex_less_distinct: "sorted_wrt lex_less ps \<Longrightarrow> distinct ps"
  by (induction ps) (auto simp: lex_less_def)

text \<open>
  Claim C6. The pairs are read off the run on the identity list \<open>[0..<N]\<close>, whose documents
  are their own indices: every run pairs the documents at exactly those index pairs, in that
  order. There are \<open>N * (N - 1) div 2\<close> pairs; the index pairs are exactly the \<open>(i, j)\<close> with
  \<open>i < j < N\<close> (so no pair of a document with itself), they are strictly increasing in the
  lexicographic order, and none occurs twice. This holds for every \<open>N\<close>, and so for \<open>N \<ge> 2\<close>.
\<close>

theorem pair_generator_all_pairs_in_order:
  "length (generate_pairs documents) = length documents * (length documents - 1) div 2 \<and>
   generate_pairs documents =
     map (\<lambda>(i, j). (documents ! i, documents ! j)) (generate_pairs [0..<length documents]) \<and>
   set (generate_pairs [0..<length documents]) = {(i, j). i < j \<and> j < length documents} \<and>
   sorted_wrt lex_less (generate_pairs [0..<length documents]) \<and>
   distinct (generate_pairs [0..<length documents])"
proof -
  have sorted: "sorted_wrt lex_less (generate_pairs [0..<length documents])"
    by (simp only: index_pairs_eq sorted_rows)
  show ?thesis
    using length_generate_pairs[of documents] generate_pairs_index[of documents]
      set_index_pairs[of "length documents"] sorted lex_less_distinct[OF sorted]
    by blast
qed

theorem pair_generator_three_documents:
  "length (generate_pairs [''a'', ''b'', ''c'']) = 3 \<and>
   generate_pairs [''a'', ''b'', ''c''] = [(''a'', ''b''), (''a'', ''c''), (''b'', ''c'')] \<and>
   generate_pairs [0, 1, 2] = [(0, 1), (0, 2), (1, 2::nat)]"
proof -
  have len: "length (generate_pairs [''a'', ''b'', ''c'']) = 3"
    using pair_generator_all_pairs_in_order[of "[''a'', ''b'', ''c'']", THEN conjunct1] by simp
  have docs: "generate_pairs [''a'', ''b'', ''c''] = [(''a'', ''b''), (''a'', ''c''), (''b'', ''c'')]"
    by (simp add: generate_pairs_eq upt_conv_Cons)
  have idx: "generate_pairs [0, 1, 2] = [(0, 1), (0, 2), (1, 2::nat)]"
    by (simp add: generate_pairs_eq upt_conv_Cons)
  show ?thesis
    using len docs idx by blast
qed

section \<open>Promise.all: proofs\<close>

lemma settle_all_resolved:
  "settle_all outcomes schedule vals = Some (Inr rs) \<Longrightarrow>
   length vals = length outcomes \<Longrightarrow>
   (\<forall>k<length outcomes. vals ! k \<noteq> None \<longrightarrow> outcomes ! k = Inr (the (vals ! k))) \<Longrightarrow>
   outcomes = map Inr rs"
proof (induction schedule arbitrary: vals)
  case Nil
  then show ?case by simp
next
  case (Cons k schedule)
  show ?case
  proof (cases "k < length outcomes \<and> vals ! k = None")
    case False
    then have "settle_all outcomes schedule vals = Some (Inr rs)"
      using Cons.prems(1) by auto
    then show ?thesis
      using Cons.IH Cons.prems(2,3) by blast
  next
    case True
    then obtain v where v: "outcomes ! k = Inr v"
      using Cons.prems(1) by (cases "outcomes ! k") auto
    let ?vals = "vals[k := Some v]"
    have len: "length ?vals = length outcomes"
      using Cons.prems(2) by simp
    have inv: "\<forall>i<length outcomes. ?vals ! i \<noteq> None \<longrightarrow> outcomes ! i = Inr (the (?vals ! i))"
    proof (intro allI impI)
      fix i
      assume i: "i < length outcomes" and some: "?vals ! i \<noteq> None"
      show "outcomes ! i = Inr (the (?vals ! i))"
      proof (cases "i = k")
        case True
        then show ?thesis using v i Cons.prems(2) by simp
      next
        case False
        then show ?thesis using some i Cons.prems(3) by simp
      qed
    qed
    show ?thesis
    proof (cases "None \<in> set ?vals")
      case True
      then have "settle_all outcomes schedule ?vals = Some (Inr rs)"
        using Cons.prems(1) \<open>k < length outcomes \<and> vals ! k = None\<close> v by simp
      then show ?thesis
        using Cons.IH len inv by blast
    next
      case False
      then have rs: "rs = map the ?vals"
        using Cons.prems(1) \<open>k < length outcomes \<and> vals ! k = None\<close> v by simp
      have "\<forall>i<length outcomes. ?vals ! i \<noteq> None"
        using False len by (metis nth_mem)
      then have "\<forall>i<length outcomes. outcomes ! i = Inr (the (?vals ! i))"
        using inv by blast
      then show ?thesis
        unfolding rs using len by (intro nth_equalityI) auto
    qed
  qed
qed

lemma settle_all_rejected:
  "settle_all outcomes schedule vals = Some (Inl e) \<Longrightarrow>
   \<exists>k<length outcomes. outcomes ! k = Inl e"
proof (induction schedule arbitrary: vals)
  case Nil
  then show ?case by simp
next
  case (Cons k schedule)
  then show ?case
    by (auto split: if_splits sum.splits)
qed

lemma settle_all_settles:
  "length vals = length outcomes \<Longrightarrow>
   (\<forall>k<length outcomes. vals ! k = None \<longrightarrow> k \<in> set schedule) \<Longrightarrow>
   None \<in> set vals \<Longrightarrow>
   \<exists>r. settle_all outcomes schedule vals = Some r"
proof (induction schedule arbitrary: vals)
  case Nil
  then show ?case
    by (auto simp: in_set_conv_nth)
next
  case (Cons k schedule)
  show ?case
  proof (cases "k < length outcomes \<and> vals ! k = None")
    case False
    have "\<forall>i<length outcomes. vals ! i = None \<longrightarrow> i \<in> set schedule"
      using Cons.prems(2) False by auto
    then show ?thesis
      using Cons.IH[OF Cons.prems(1) _ Cons.prems(3)] False by auto
  next
    case True
    show ?thesis
    proof (cases "outcomes ! k")
      case (Inl e)
      then show ?thesis using True by simp
    next
      case (Inr v)
      let ?vals = "vals[k := Some v]"
      show ?thesis
      proof (cases "None \<in> set ?vals")
        case False
        then show ?thesis using True Inr by simp
      next
        case pending: True
        have len: "length ?vals = length outcomes"
          using Cons.prems(1) by simp
        have "\<forall>i<length outcomes. ?vals ! i = None \<longrightarrow> i \<in> set schedule"
        proof (intro allI impI)
          fix i
          assume i: "i < length outcomes" and none: "?vals ! i = None"
          have "i \<noteq> k"
            using none i Cons.prems(1) by auto
          then show "i \<in> set schedule"
            using none i Cons.prems(2) by auto
        qed
        then show ?thesis
          using Cons.IH[OF len _ pending] True Inr pending by simp
      qed
    qed
  qed
qed

lemma Promise_all_resolved:
  "Promise_all schedule outcomes = Some (Inr rs) \<Longrightarrow> outcomes = map Inr rs"
  by (auto simp: Promise_all_def split: if_splits dest: settle_all_resolved)

lemma Promise_all_rejected:
  "Promise_all schedule outcomes = Some (Inl e) \<Longrightarrow> \<exists>k<length outcomes. outcomes ! k = Inl e"
  by (auto simp: Promise_all_def split: if_splits dest: settle_all_rejected)

lemma Promise_all_settles:
  "\<forall>k<length outcomes. k \<in> set schedule \<Longrightarrow> \<exists>r. Promise_all schedule outcomes = Some r"
proof (cases "outcomes = []")
  case True
  then show ?thesis by (simp add: Promise_all_def)
next
  case False
  assume cover: "\<forall>k<length outcomes. k \<in> set schedule"
  have "None \<in> set (replicate (length outcomes) (None :: 'a option))"
    using False by simp
  then show ?thesis
    using settle_all_settles[of "replicate (length outcomes) None" outcomes schedule] cover False
    by (simp add: Promise_all_def)
qed

lemma Promise_all_all_fulfilled:
  assumes "\<forall>k<length rs. k \<in> set schedule"
  shows "Promise_all schedule (map Inr rs) = Some (Inr rs)"
proof -
  obtain r where r: "Promise_all schedule (map Inr rs) = Some r"
    using Promise_all_settles[of "map Inr rs" schedule] assms by auto
  show ?thesis
  proof (cases r)
    case (Inl e)
    then show ?thesis
      using Promise_all_rejected[of schedule "map Inr rs" e] r by auto
  next
    case (Inr rs')
    then have "map Inr rs = (map Inr rs' :: (string + 'a) list)"
      using Promise_all_resolved[of schedule "map Inr rs" rs'] r by simp
    then have "rs = rs'"
      by (simp add: inj_map_eq_map)
    then show ?thesis using r Inr by simp
  qed
qed

lemma settle_all_settles_at_rejection:
  "j \<in> set schedule \<Longrightarrow> j < length outcomes \<Longrightarrow> outcomes ! j = Inl e \<Longrightarrow>
   length vals = length outcomes \<Longrightarrow> vals ! j = None \<Longrightarrow>
   \<exists>r. settle_all outcomes schedule vals = Some r"
proof (induction schedule arbitrary: vals)
  case Nil
  then show ?case by simp
next
  case (Cons k schedule)
  show ?case
  proof (cases "k < length outcomes \<and> vals ! k = None")
    case False
    then have "k \<noteq> j"
      using Cons.prems(2,5) by blast
    then have "j \<in> set schedule"
      using Cons.prems(1) by simp
    then show ?thesis
      using Cons.IH[OF _ Cons.prems(2,3,4,5)] False by auto
  next
    case True
    show ?thesis
    proof (cases "outcomes ! k")
      case (Inl e')
      then show ?thesis using True by simp
    next
      case (Inr v)
      then have kj: "k \<noteq> j"
        using Cons.prems(3) by auto
      then have j: "j \<in> set schedule"
        using Cons.prems(1) by simp
      let ?vals = "vals[k := Some v]"
      have len: "length ?vals = length outcomes"
        using Cons.prems(4) by simp
      have pending: "?vals ! j = None"
        using kj Cons.prems(5) by simp
      then have "None \<in> set ?vals"
        using Cons.prems(2) len by (metis nth_mem)
      then show ?thesis
        using Cons.IH[OF j Cons.prems(2,3) len pending] True Inr by simp
    qed
  qed
qed

lemma Promise_all_rejects:
  assumes "j \<in> set schedule" and "j < length outcomes" and "outcomes ! j = Inl e"
  shows "\<exists>k e'. k < length outcomes \<and> outcomes ! k = Inl e' \<and>
                Promise_all schedule outcomes = Some (Inl e')"
proof -
  have ne: "outcomes \<noteq> []"
    using assms(2) by auto
  obtain r where r: "Promise_all schedule outcomes = Some r"
    using settle_all_settles_at_rejection[OF assms, of "replicate (length outcomes) None"]
      assms(2) ne
    by (auto simp: Promise_all_def)
  show ?thesis
  proof (cases r)
    case (Inl e')
    then show ?thesis
      using Promise_all_rejected[of schedule outcomes e'] r by auto
  next
    case (Inr rs)
    then have "outcomes = map Inr rs"
      using Promise_all_resolved r by blast
    then show ?thesis
      using assms(2,3) by auto
  qed
qed

lemma all_fulfilled_map:
  assumes "\<forall>k<length outcomes. \<exists>r. outcomes ! k = Inr r"
  shows "\<exists>rs. outcomes = map Inr rs"
proof -
  have "outcomes = map Inr (map projr outcomes)"
  proof (rule nth_equalityI)
    show "length outcomes = length (map Inr (map projr outcomes))"
      by simp
  next
    fix i
    assume "i < length outcomes"
    then show "outcomes ! i = map Inr (map projr outcomes) ! i"
      using assms by auto
  qed
  then show ?thesis ..
qed

lemma Promise_all_fulfils:
  assumes "\<forall>k<length outcomes. k \<in> set schedule"
    and "\<forall>k<length outcomes. \<exists>r. outcomes ! k = Inr r"
  shows "\<exists>rs. Promise_all schedule outcomes = Some (Inr rs)"
proof -
  obtain rs where rs: "outcomes = map Inr rs"
    using all_fulfilled_map assms(2) by blast
  then have "\<forall>k<length rs. k \<in> set schedule"
    using assms(1) by simp
  then show ?thesis
    using Promise_all_all_fulfilled rs by blast
qed

section \<open>The work items and the run: proofs\<close>

lemma pair_item_rejected:
  "snd (pair_item parse ai p) = Inl e \<Longrightarrow> e = pair_failure (fst p) (snd p)"
  by (auto simp: pair_item_def analyzePair_def split: sum.splits option.splits)

lemma pair_item_call_fails:
  "ai (PairRequest (inline (fst p)) (inline (snd p))) = Inl msg \<Longrightarrow>
   snd (pair_item parse ai p) = Inl (pair_failure (fst p) (snd p))"
  by (simp add: pair_item_def analyzePair_def)

lemma pair_item_fulfilled:
  "snd (pair_item parse ai p) = Inr r \<Longrightarrow>
   \<exists>c. r = PairResult c \<and> ComparisonResult.file1 c = name (fst p) \<and> file2 c = name (snd p)"
  by (auto simp: pair_item_def analyzePair_def split: sum.splits option.splits)

lemma online_item_rejected:
  "snd (online_item parse ai doc) = Inl e \<Longrightarrow>
   e = online_failure (name doc) \<or> (\<exists>m. e = extract_failure doc m)"
  by (auto simp: online_item_def extractTextFromDoc_def analyzeContentOnline_def
      split: sum.splits option.splits if_splits prod.splits json.splits)

lemma online_item_fulfilled:
  "snd (online_item parse ai doc) = Inr r \<Longrightarrow>
   \<exists>c. r = OnlineResult c \<and> OnlineComparisonResult.file1 c = name doc"
  by (auto simp: online_item_def extractTextFromDoc_def analyzeContentOnline_def
      split: sum.splits option.splits if_splits prod.splits json.splits)

lemma online_item_extract_fails:
  "ai (ExtractRequest (inline doc)) = Inl msg \<Longrightarrow>
   snd (online_item parse ai doc) = Inl (extract_failure doc msg)"
  by (simp add: online_item_def extractTextFromDoc_def)

lemma online_item_online_fails:
  "snd (extractTextFromDoc ai doc) = Inr t \<Longrightarrow> ai (OnlineRequest t) = Inl msg \<Longrightarrow>
   snd (online_item parse ai doc) = Inl (online_failure (name doc))"
  by (auto simp: online_item_def analyzeContentOnline_def split: prod.splits sum.splits)

lemma checkPlagiarism_pairwise:
  "snd (checkPlagiarism parse ai schedule documents False) =
     (if length documents < 2 then Some (Inr [])
      else Promise_all schedule
             (map (\<lambda>(k, p). snd (pair_item parse (ai k) p)) (enumerate 0 (generate_pairs documents))))"
  by (simp add: checkPlagiarism_def run_items_def comp_def case_prod_unfold)

lemma checkPlagiarism_online:
  "snd (checkPlagiarism parse ai schedule documents True) =
     (if length documents < 1 then Some (Inr [])
      else Promise_all schedule
             (map (\<lambda>(k, doc). snd (online_item parse (ai k) doc)) (enumerate 0 documents)))"
  by (simp add: checkPlagiarism_def run_items_def comp_def case_prod_unfold)

lemma enumerate_outcome:
  "k < length xs \<Longrightarrow> map (\<lambda>(k, x). f k x) (enumerate 0 xs) ! k = f k (xs ! k)"
  by (simp add: nth_enumerate_eq)

lemma pairwise_run_fulfils:
  assumes "\<forall>k<length (generate_pairs documents). k \<in> set schedule"
    and "\<forall>k<length (generate_pairs documents).
           \<exists>r. snd (pair_item parse (ai k) (generate_pairs documents ! k)) = Inr r"
  shows "\<exists>results. snd (checkPlagiarism parse ai schedule documents False) = Some (Inr results)"
proof (cases "length documents < 2")
  case True
  then show ?thesis by (simp add: checkPlagiarism_pairwise)
next
  case False
  let ?outcomes =
    "map (\<lambda>(k, p). snd (pair_item parse (ai k) p)) (enumerate 0 (generate_pairs documents))"
  have "\<forall>k<length ?outcomes. k \<in> set schedule"
    using assms(1) by simp
  moreover have "\<forall>k<length ?outcomes. \<exists>r. ?outcomes ! k = Inr r"
    using assms(2) by (simp add: nth_enumerate_eq)
  ultimately show ?thesis
    using Promise_all_fulfils[of ?outcomes schedule] False
    by (simp add: checkPlagiarism_pairwise)
qed

lemma online_run_fulfils:
  assumes "\<forall>k<length documents. k \<in> set schedule"
    and "\<forall>k<length documents. \<exists>r. snd (online_item parse (ai k) (documents ! k)) = Inr r"
  shows "\<exists>results. snd (checkPlagiarism parse ai schedule documents True) = Some (Inr results)"
proof (cases "length documents < 1")
  case True
  then show ?thesis by (simp add: checkPlagiarism_online)
next
  case False
  let ?outcomes = "map (\<lambda>(k, doc). snd (online_item parse (ai k) doc)) (enumerate 0 documents)"
  have "\<forall>k<length ?outcomes. k \<in> set schedule"
    using assms(1) by simp
  moreover have "\<forall>k<length ?outcomes. \<exists>r. ?outcomes ! k = Inr r"
    using assms(2) by (simp add: nth_enumerate_eq)
  ultimately show ?thesis
    using Promise_all_fulfils[of ?outcomes schedule] False
    by (simp add: checkPlagiarism_online)
qed

lemma pairwise_run_rejects:
  assumes settles: "j \<in> set schedule"
    and j: "j < length (generate_pairs documents)"
    and fails: "ai j (PairRequest (inline (fst (generate_pairs documents ! j)))
                                  (inline (snd (generate_pairs documents ! j)))) = Inl msg"
  shows "\<exists>k<length (generate_pairs documents).
           snd (pair_item parse (ai k) (generate_pairs documents ! k)) =
             Inl (pair_failure (fst (generate_pairs documents ! k)) (snd (generate_pairs documents ! k))) \<and>
           snd (checkPlagiarism parse ai schedule documents False) =
             Some (Inl (pair_failure (fst (generate_pairs documents ! k))
                                     (snd (generate_pairs documents ! k))))"
proof -
  let ?pairs = "generate_pairs documents"
  let ?outcomes = "map (\<lambda>(k, p). snd (pair_item parse (ai k) p)) (enumerate 0 ?pairs)"
  have "?outcomes ! j = Inl (pair_failure (fst (?pairs ! j)) (snd (?pairs ! j)))"
    using j fails by (simp add: nth_enumerate_eq pair_item_call_fails)
  moreover have "j < length ?outcomes"
    using j by simp
  ultimately obtain k e where k: "k < length ?outcomes" and e: "?outcomes ! k = Inl e"
    and run: "Promise_all schedule ?outcomes = Some (Inl e)"
    using Promise_all_rejects[OF settles, of ?outcomes] by blast
  have k': "k < length ?pairs"
    using k by simp
  then have item: "snd (pair_item parse (ai k) (?pairs ! k)) = Inl e"
    using e by (simp add: nth_enumerate_eq)
  then have "e = pair_failure (fst (?pairs ! k)) (snd (?pairs ! k))"
    by (rule pair_item_rejected)
  moreover have "\<not> length documents < 2"
  proof
    assume "length documents < 2"
    then have "length (generate_pairs documents) = 0"
      using length_generate_pairs[of documents] by (cases documents) auto
    then show False using j by simp
  qed
  ultimately show ?thesis
    using k' item run by (auto simp: checkPlagiarism_pairwise)
qed

lemma online_run_rejects:
  assumes settles: "j \<in> set schedule"
    and j: "j < length documents"
    and fails: "ai j (ExtractRequest (inline (documents ! j))) = Inl msg \<or>
                (\<exists>t. snd (extractTextFromDoc (ai j) (documents ! j)) = Inr t \<and>
                     ai j (OnlineRequest t) = Inl msg)"
  shows "\<exists>k<length documents. \<exists>e.
           snd (online_item parse (ai k) (documents ! k)) = Inl e \<and>
           snd (checkPlagiarism parse ai schedule documents True) = Some (Inl e) \<and>
           (e = online_failure (name (documents ! k)) \<or> (\<exists>m. e = extract_failure (documents ! k) m))"
proof -
  let ?outcomes = "map (\<lambda>(k, doc). snd (online_item parse (ai k) doc)) (enumerate 0 documents)"
  have "\<exists>e. snd (online_item parse (ai j) (documents ! j)) = Inl e"
    using fails online_item_extract_fails online_item_online_fails by blast
  then obtain e0 where "?outcomes ! j = Inl e0"
    using j by (auto simp: nth_enumerate_eq)
  moreover have "j < length ?outcomes"
    using j by simp
  ultimately obtain k e where k: "k < length ?outcomes" and e: "?outcomes ! k = Inl e"
    and run: "Promise_all schedule ?outcomes = Some (Inl e)"
    using Promise_all_rejects[OF settles, of ?outcomes] by blast
  have k': "k < length documents"
    using k by simp
  then have item: "snd (online_item parse (ai k) (documents ! k)) = Inl e"
    using e by (simp add: nth_enumerate_eq)
  then have "e = online_failure (name (documents ! k)) \<or> (\<exists>m. e = extract_failure (documents ! k) m)"
    by (rule online_item_rejected)
  moreover have "\<not> length documents < 1"
    using j by (cases documents) auto
  ultimately show ?thesis
    using k' item run by (auto simp: checkPlagiarism_online)
qed

lemma results_order:
  "(snd (checkPlagiarism parse ai schedule documents False) = Some (Inr results) \<longrightarrow>
      length results = length (generate_pairs documents) \<and>
      (\<forall>k<length (generate_pairs documents).
         snd (pair_item parse (ai k) (generate_pairs documents ! k)) = Inr (results ! k) \<and>
         (\<exists>c. results ! k = PairResult c \<and>
              ComparisonResult.file1 c = name (fst (generate_pairs documents ! k)) \<and>
              file2 c = name (snd (generate_pairs documents ! k))))) \<and>
   (snd (checkPlagiarism parse ai schedule documents True) = Some (Inr results) \<longrightarrow>
      length results = length documents \<and>
      (\<forall>k<length documents.
         snd (online_item parse (ai k) (documents ! k)) = Inr (results ! k) \<and>
         (\<exists>c. results ! k = OnlineResult c \<and>
              OnlineComparisonResult.file1 c = name (documents ! k))))"
proof (intro conjI impI)
  assume run: "snd (checkPlagiarism parse ai schedule documents False) = Some (Inr results)"
  let ?pairs = "generate_pairs documents"
  let ?outcomes = "map (\<lambda>(k, p). snd (pair_item parse (ai k) p)) (enumerate 0 ?pairs)"
  have out: "?outcomes = map Inr results"
  proof (cases "length documents < 2")
    case True
    then have "length ?pairs = 0"
      using length_generate_pairs[of documents] by (cases documents) auto
    then show ?thesis
      using run True by (simp add: checkPlagiarism_pairwise)
  next
    case False
    then show ?thesis
      using run Promise_all_resolved by (simp add: checkPlagiarism_pairwise)
  qed
  show len: "length results = length ?pairs"
    using arg_cong[OF out, of length] by simp
  show "\<forall>k<length ?pairs.
         snd (pair_item parse (ai k) (?pairs ! k)) = Inr (results ! k) \<and>
         (\<exists>c. results ! k = PairResult c \<and>
              ComparisonResult.file1 c = name (fst (?pairs ! k)) \<and>
              file2 c = name (snd (?pairs ! k)))"
  proof (intro allI impI)
    fix k
    assume k: "k < length ?pairs"
    have "?outcomes ! k = snd (pair_item parse (ai k) (?pairs ! k))"
      using k by (rule enumerate_outcome)
    moreover have "(map Inr results :: (string + _) list) ! k = Inr (results ! k)"
      using k len by simp
    ultimately have item: "snd (pair_item parse (ai k) (?pairs ! k)) = Inr (results ! k)"
      using out by simp
    then show "snd (pair_item parse (ai k) (?pairs ! k)) = Inr (results ! k) \<and>
         (\<exists>c. results ! k = PairResult c \<and>
              ComparisonResult.file1 c = name (fst (?pairs ! k)) \<and>
              file2 c = name (snd (?pairs ! k)))"
      using pair_item_fulfilled by blast
  qed
next
  assume run: "snd (checkPlagiarism parse ai schedule documents True) = Some (Inr results)"
  let ?outcomes = "map (\<lambda>(k, doc). snd (online_item parse (ai k) doc)) (enumerate 0 documents)"
  have out: "?outcomes = map Inr results"
  proof (cases "length documents < 1")
    case True
    then show ?thesis
      using run by (simp add: checkPlagiarism_online)
  next
    case False
    then show ?thesis
      using run Promise_all_resolved by (simp add: checkPlagiarism_online)
  qed
  show len: "length results = length documents"
    using arg_cong[OF out, of length] by simp
  show "\<forall>k<length documents.
         snd (online_item parse (ai k) (documents ! k)) = Inr (results ! k) \<and>
         (\<exists>c. results ! k = OnlineResult c \<and>
              OnlineComparisonResult.file1 c = name (documents ! k))"
  proof (intro allI impI)
    fix k
    assume k: "k < length documents"
    have "?outcomes ! k = snd (online_item parse (ai k) (documents ! k))"
      using k by (rule enumerate_outcome)
    moreover have "(map Inr results :: (string + _) list) ! k = Inr (results ! k)"
      using k len by simp
    ultimately have item: "snd (online_item parse (ai k) (documents ! k)) = Inr (results ! k)"
      using out by simp
    then show "snd (online_item parse (ai k) (documents ! k)) = Inr (results ! k) \<and>
         (\<exists>c. results ! k = OnlineResult c \<and>
              OnlineComparisonResult.file1 c = name (documents ! k))"
      using online_item_fulfilled by blast
  qed
qed

lemma example_pairs:
  "generate_pairs example_documents =
     [(example_documents ! 0, example_documents ! 1),
      (example_documents ! 0, example_documents ! 2),
      (example_documents ! 1, example_documents ! 2)]"
  by (simp add: generate_pairs_eq example_documents_def upt_conv_Cons)

lemma example_run_out_of_order:
  "snd (checkPlagiarism example_parse example_pair_provider [2, 0, 1] example_documents False) =
     Some (Inr [PairResult \<lparr>ComparisonResult.file1 = ''a.txt'', file2 = ''b.txt'',
                             ComparisonResult.similarity = Some (JNum 10),
                             ComparisonResult.matched_sentences = Some (JArr [])\<rparr>,
                PairResult \<lparr>ComparisonResult.file1 = ''a.txt'', file2 = ''c.txt'',
                             ComparisonResult.similarity = Some (JNum 50),
                             ComparisonResult.matched_sentences = Some (JArr [])\<rparr>,
                PairResult \<lparr>ComparisonResult.file1 = ''b.txt'', file2 = ''c.txt'',
                             ComparisonResult.similarity = Some (JNum 90),
                             ComparisonResult.matched_sentences = Some (JArr [])\<rparr>])"
  unfolding checkPlagiarism_pairwise example_pairs
  by (simp add: example_documents_def Promise_all_def pair_item_def analyzePair_def
      example_pair_provider_def example_parse_def example_object_def trim_def is_space_def
      enumerate_eq_zip upt_conv_Cons)

lemma example_run_fails:
  "snd (checkPlagiarism example_parse example_failing_provider [2, 0, 1] example_documents False) =
     Some (Inl ''Failed to analyze documents: a.txt and c.txt. The API returned an error.'')"
  unfolding checkPlagiarism_pairwise example_pairs
  by (simp add: example_documents_def Promise_all_def pair_item_def analyzePair_def
      example_pair_provider_def example_failing_provider_def example_parse_def example_object_def
      trim_def is_space_def pair_failure_def
      enumerate_eq_zip upt_conv_Cons)

text \<open>
  Claim C5. Whatever the order \<open>schedule\<close> in which the work items settle, a run that
  resolves with a list \<open>results\<close> has one result per work item, and the result at index \<open>k\<close>
  is the result of the work item with index \<open>k\<close>: of the \<open>k\<close>-th generated pair in pairwise
  mode (it carries the names of that pair's documents), of the \<open>k\<close>-th document in online mode
  (it carries that document's name). And the run does resolve when every work item succeeds
  and every work item settles in the schedule.
\<close>

theorem results_in_work_item_order:
  "(snd (checkPlagiarism parse ai schedule documents False) = Some (Inr results) \<longrightarrow>
      length results = length (generate_pairs documents) \<and>
      (\<forall>k<length (generate_pairs documents).
         snd (pair_item parse (ai k) (generate_pairs documents ! k)) = Inr (results ! k) \<and>
         (\<exists>c. results ! k = PairResult c \<and>
              ComparisonResult.file1 c = name (fst (generate_pairs documents ! k)) \<and>
              file2 c = name (snd (generate_pairs documents ! k))))) \<and>
   (snd (checkPlagiarism parse ai schedule documents True) = Some (Inr results) \<longrightarrow>
      length results = length documents \<and>
      (\<forall>k<length documents.
         snd (online_item parse (ai k) (documents ! k)) = Inr (results ! k) \<and>
         (\<exists>c. results ! k = OnlineResult c \<and>
              OnlineComparisonResult.file1 c = name (documents ! k)))) \<and>
   ((\<forall>k<length (generate_pairs documents). k \<in> set schedule) \<and>
    (\<forall>k<length (generate_pairs documents).
       \<exists>r. snd (pair_item parse (ai k) (generate_pairs documents ! k)) = Inr r) \<longrightarrow>
    (\<exists>rs. snd (checkPlagiarism parse ai schedule documents False) = Some (Inr rs))) \<and>
   ((\<forall>k<length documents. k \<in> set schedule) \<and>
    (\<forall>k<length documents. \<exists>r. snd (online_item parse (ai k) (documents ! k)) = Inr r) \<longrightarrow>
    (\<exists>rs. snd (checkPlagiarism parse ai schedule documents True) = Some (Inr rs)))"
proof (intro conjI)
  show "snd (checkPlagiarism parse ai schedule documents False) = Some (Inr results) \<longrightarrow>
      length results = length (generate_pairs documents) \<and>
      (\<forall>k<length (generate_pairs documents).
         snd (pair_item parse (ai k) (generate_pairs documents ! k)) = Inr (results ! k) \<and>
         (\<exists>c. results ! k = PairResult c \<and>
              ComparisonResult.file1 c = name (fst (generate_pairs documents ! k)) \<and>
              file2 c = name (snd (generate_pairs documents ! k))))"
    by (rule results_order[THEN conjunct1])
  show "snd (checkPlagiarism parse ai schedule documents True) = Some (Inr results) \<longrightarrow>
      length results = length documents \<and>
      (\<forall>k<length documents.
         snd (online_item parse (ai k) (documents ! k)) = Inr (results ! k) \<and>
         (\<exists>c. results ! k = OnlineResult c \<and>
              OnlineComparisonResult.file1 c = name (documents ! k)))"
    by (rule results_order[THEN conjunct2])
  show "(\<forall>k<length (generate_pairs documents). k \<in> set schedule) \<and>
    (\<forall>k<length (generate_pairs documents).
       \<exists>r. snd (pair_item parse (ai k) (generate_pairs documents ! k)) = Inr r) \<longrightarrow>
    (\<exists>rs. snd (checkPlagiarism parse ai schedule documents False) = Some (Inr rs))"
    using pairwise_run_fulfils by blast
  show "(\<forall>k<length documents. k \<in> set schedule) \<and>
    (\<forall>k<length documents. \<exists>r. snd (online_item parse (ai k) (documents ! k)) = Inr r) \<longrightarrow>
    (\<exists>rs. snd (checkPlagiarism parse ai schedule documents True) = Some (Inr rs))"
    using online_run_fulfils by blast
qed

theorem results_in_work_item_order_example:
  "snd (checkPlagiarism example_parse example_pair_provider [2, 0, 1] example_documents False) =
     Some (Inr [PairResult \<lparr>ComparisonResult.file1 = ''a.txt'', file2 = ''b.txt'',
                             ComparisonResult.similarity = Some (JNum 10),
                             ComparisonResult.matched_sentences = Some (JArr [])\<rparr>,
                PairResult \<lparr>ComparisonResult.file1 = ''a.txt'', file2 = ''c.txt'',
                             ComparisonResult.similarity = Some (JNum 50),
                             ComparisonResult.matched_sentences = Some (JArr [])\<rparr>,
                PairResult \<lparr>ComparisonResult.file1 = ''b.txt'', file2 = ''c.txt'',
                             ComparisonResult.similarity = Some (JNum 90),
                             ComparisonResult.matched_sentences = Some (JArr [])\<rparr>]) \<and>
   snd (pair_item example_parse (example_pair_provider 2) (generate_pairs example_documents ! 2)) =
     Inr (PairResult \<lparr>ComparisonResult.file1 = ''b.txt'', file2 = ''c.txt'',
                      ComparisonResult.similarity = Some (JNum 90),
                      ComparisonResult.matched_sentences = Some (JArr [])\<rparr>)"
proof -
  note run = example_run_out_of_order
  have "2 < length (generate_pairs example_documents)"
    by (simp add: example_pairs)
  then show ?thesis
    using results_in_work_item_order[THEN conjunct1, THEN mp, OF run, THEN conjunct2,
        THEN spec, of 2] run
    by simp
qed

lemma online_item_rejected_text:
  "snd (online_item parse ai doc) = Inl e \<Longrightarrow>
   e = ''Failed to analyze document '' @ name doc @
         '' against online sources. The API returned an error.'' \<or>
   (\<exists>m. e = ''Failed to extract text from file: '' @ name doc @ ''. API Error: '' @ m \<and>
        (ai (ExtractRequest (inline doc)) = Inl m \<or>
         m = ''The API failed to extract any text from the file: '' @ name doc @
               ''. The file might be empty, password-protected, or in an unsupported format.''))"
  by (auto simp: online_item_def extractTextFromDoc_def analyzeContentOnline_def
      online_failure_def extract_failure_def no_text_message_def
      split: sum.splits option.splits if_splits prod.splits json.splits)

text \<open>
  Claim C4, as amended. When a provider call of some work item \<open>j\<close> is rejected and that work
  item settles (\<open>j\<close> occurs in the schedule; the other work items need not settle at all), the
  run is rejected: the promise that \<open>checkPlagiarism\<close> returns settles with an error and no
  list of results. The error is the one message of a work item \<open>k\<close> that failed: in pairwise
  mode the text of line 124 with the names of the two documents of pair \<open>k\<close>; in online mode
  the text of line 195 with the name of document \<open>k\<close>, or the text of line 79 with the name of
  document \<open>k\<close> and the reason (the message of the rejected call, or the text of line 73).
  The message names the documents; it tells work items apart only as far as their names do.
\<close>

theorem one_failed_call_fails_the_run:
  "(j \<in> set schedule \<and> j < length (generate_pairs documents) \<and>
    ai j (PairRequest (inline (fst (generate_pairs documents ! j)))
                      (inline (snd (generate_pairs documents ! j)))) = Inl msg \<longrightarrow>
    (\<exists>k<length (generate_pairs documents).
       snd (pair_item parse (ai k) (generate_pairs documents ! k)) =
         Inl (''Failed to analyze documents: '' @ name (fst (generate_pairs documents ! k)) @
              '' and '' @ name (snd (generate_pairs documents ! k)) @
              ''. The API returned an error.'') \<and>
       snd (checkPlagiarism parse ai schedule documents False) =
         Some (Inl (''Failed to analyze documents: '' @ name (fst (generate_pairs documents ! k)) @
                    '' and '' @ name (snd (generate_pairs documents ! k)) @
                    ''. The API returned an error.'')))) \<and>
   (j \<in> set schedule \<and> j < length documents \<and>
    (ai j (ExtractRequest (inline (documents ! j))) = Inl msg \<or>
     (\<exists>t. snd (extractTextFromDoc (ai j) (documents ! j)) = Inr t \<and>
          ai j (OnlineRequest t) = Inl msg)) \<longrightarrow>
    (\<exists>k<length documents. \<exists>e.
       snd (online_item parse (ai k) (documents ! k)) = Inl e \<and>
       snd (checkPlagiarism parse ai schedule documents True) = Some (Inl e) \<and>
       (e = ''Failed to analyze document '' @ name (documents ! k) @
              '' against online sources. The API returned an error.'' \<or>
        (\<exists>m. e = ''Failed to extract text from file: '' @ name (documents ! k) @
                  ''. API Error: '' @ m \<and>
             (ai k (ExtractRequest (inline (documents ! k))) = Inl m \<or>
              m = ''The API failed to extract any text from the file: '' @ name (documents ! k) @
                    ''. The file might be empty, password-protected, or in an unsupported format.'')))))"
proof (intro conjI impI)
  assume "j \<in> set schedule \<and> j < length (generate_pairs documents) \<and>
    ai j (PairRequest (inline (fst (generate_pairs documents ! j)))
                      (inline (snd (generate_pairs documents ! j)))) = Inl msg"
  then show "\<exists>k<length (generate_pairs documents).
       snd (pair_item parse (ai k) (generate_pairs documents ! k)) =
         Inl (''Failed to analyze documents: '' @ name (fst (generate_pairs documents ! k)) @
              '' and '' @ name (snd (generate_pairs documents ! k)) @
              ''. The API returned an error.'') \<and>
       snd (checkPlagiarism parse ai schedule documents False) =
         Some (Inl (''Failed to analyze documents: '' @ name (fst (generate_pairs documents ! k)) @
                    '' and '' @ name (snd (generate_pairs documents ! k)) @
                    ''. The API returned an error.''))"
    using pairwise_run_rejects[of j schedule documents ai msg parse]
    unfolding pair_failure_def by blast
next
  assume "j \<in> set schedule \<and> j < length documents \<and>
    (ai j (ExtractRequest (inline (documents ! j))) = Inl msg \<or>
     (\<exists>t. snd (extractTextFromDoc (ai j) (documents ! j)) = Inr t \<and>
          ai j (OnlineRequest t) = Inl msg))"
  then obtain k e where k: "k < length documents"
    and item: "snd (online_item parse (ai k) (documents ! k)) = Inl e"
    and run: "snd (checkPlagiarism parse ai schedule documents True) = Some (Inl e)"
    using online_run_rejects[of j schedule documents ai msg parse] by blast
  show "\<exists>k<length documents. \<exists>e.
       snd (online_item parse (ai k) (documents ! k)) = Inl e \<and>
       snd (checkPlagiarism parse ai schedule documents True) = Some (Inl e) \<and>
       (e = ''Failed to analyze document '' @ name (documents ! k) @
              '' against online sources. The API returned an error.'' \<or>
        (\<exists>m. e = ''Failed to extract text from file: '' @ name (documents ! k) @
                  ''. API Error: '' @ m \<and>
             (ai k (ExtractRequest (inline (documents ! k))) = Inl m \<or>
              m = ''The API failed to extract any text from the file: '' @ name (documents ! k) @
                    ''. The file might be empty, password-protected, or in an unsupported format.'')))"
    using k item run online_item_rejected_text[OF item] by blast
qed

lemma example_same_names_pairs:
  "generate_pairs example_same_names =
     [(example_same_names ! 0, example_same_names ! 1),
      (example_same_names ! 0, example_same_names ! 2),
      (example_same_names ! 1, example_same_names ! 2)]"
  by (simp add: generate_pairs_eq example_same_names_def upt_conv_Cons)

text \<open>
  The claim C4 as stated fails where two work items have documents of the same names: the
  run in which only the pair with index 1 fails and the run in which only the pair with index
  2 fails surface the same message, so the message does not tell which pair failed.
\<close>

theorem failure_message_same_for_two_pairs:
  "snd (checkPlagiarism example_parse (example_provider_failing_at 1) [0, 1, 2]
          example_same_names False) =
     Some (Inl ''Failed to analyze documents: a.txt and c.txt. The API returned an error.'') \<and>
   snd (checkPlagiarism example_parse (example_provider_failing_at 2) [0, 1, 2]
          example_same_names False) =
     Some (Inl ''Failed to analyze documents: a.txt and c.txt. The API returned an error.'') \<and>
   generate_pairs example_same_names ! 1 \<noteq> generate_pairs example_same_names ! 2 \<and>
   isl (snd (pair_item example_parse (example_provider_failing_at 1 1)
               (generate_pairs example_same_names ! 1))) \<and>
   \<not> isl (snd (pair_item example_parse (example_provider_failing_at 1 2)
                 (generate_pairs example_same_names ! 2))) \<and>
   \<not> isl (snd (pair_item example_parse (example_provider_failing_at 2 1)
                 (generate_pairs example_same_names ! 1))) \<and>
   isl (snd (pair_item example_parse (example_provider_failing_at 2 2)
               (generate_pairs example_same_names ! 2)))"
  unfolding checkPlagiarism_pairwise example_same_names_pairs
  by (simp add: example_same_names_def Promise_all_def pair_item_def analyzePair_def
      example_pair_provider_def example_provider_failing_at_def example_parse_def
      example_object_def trim_def is_space_def pair_failure_def
      enumerate_eq_zip upt_conv_Cons)

text \<open>
  Claim C8. In pairwise mode a list of fewer than two documents gives the empty result list,
  and the list of requests sent to the provider is empty.
\<close>

theorem pairwise_needs_two_documents:
  "length documents < 2 \<Longrightarrow>
   checkPlagiarism parse ai schedule documents False = ([], Some (Inr []))"
  by (simp add: checkPlagiarism_def)

theorem pairwise_single_document:
  "length [\<lparr>name = ''a.txt'', content = ''QQ=='', mimeType = ''text/plain''\<rparr>] < 2 \<and>
   checkPlagiarism (\<lambda>s. None) (\<lambda>k r. Inl ''unreachable'') [0]
     [\<lparr>name = ''a.txt'', content = ''QQ=='', mimeType = ''text/plain''\<rparr>] False = ([], Some (Inr []))"
  using pairwise_needs_two_documents
    [of "[\<lparr>name = ''a.txt'', content = ''QQ=='', mimeType = ''text/plain''\<rparr>]"
        "\<lambda>s. None" "\<lambda>k r. Inl ''unreachable''" "[0]"]
  by simp

section \<open>Sources: proofs\<close>

lemma Map_set_keys:
  "map fst (Map_set k v m) = (if k \<in> fst ` set m then map fst m else map fst m @ [k])"
proof (induction m)
  case Nil
  then show ?case by simp
next
  case (Cons p m)
  obtain k' v' where p: "p = (k', v')" by (cases p)
  show ?case
  proof (cases "k' = k")
    case True
    then show ?thesis using p by simp
  next
    case False
    then show ?thesis using p Cons.IH by simp
  qed
qed

lemma Map_set_entries:
  "distinct (map fst m) \<Longrightarrow> set (Map_set k v m) = insert (k, v) {p \<in> set m. fst p \<noteq> k}"
proof (induction m)
  case Nil
  then show ?case by simp
next
  case (Cons p m)
  obtain k' v' where p: "p = (k', v')" by (cases p)
  have notin: "\<forall>q\<in>set m. fst q \<noteq> k'" and dist: "distinct (map fst m)"
    using Cons.prems p by (auto simp: image_iff)
  show ?case
  proof (cases "k' = k")
    case True
    have "{q \<in> set m. fst q \<noteq> k} = set m"
      using notin True by blast
    moreover have "{q \<in> set (p # m). fst q \<noteq> k} = {q \<in> set m. fst q \<noteq> k}"
      using p True by (simp add: set_eq_iff) blast
    moreover have "set (Map_set k v (p # m)) = insert (k, v) (set m)"
      using p True by simp
    ultimately show ?thesis by simp
  next
    case False
    have "set (Map_set k v (p # m)) = insert (k', v') (set (Map_set k v m))"
      using p False by simp
    also have "\<dots> = insert (k', v') (insert (k, v) {q \<in> set m. fst q \<noteq> k})"
      using Cons.IH[OF dist] by simp
    also have "\<dots> = insert (k, v) (insert (k', v') {q \<in> set m. fst q \<noteq> k})"
      by (rule insert_commute)
    also have "insert (k', v') {q \<in> set m. fst q \<noteq> k} = {q \<in> set (p # m). fst q \<noteq> k}"
      using p False by (simp add: set_eq_iff) blast
    finally show ?thesis .
  qed
qed

lemma new_Map_snoc: "new_Map (entries @ [(k, v)]) = Map_set k v (new_Map entries)"
  by (simp add: new_Map_def)

lemma new_Map_keys:
  "map fst (new_Map (map (\<lambda>x. (f x, x)) xs)) = rev (remdups (rev (map f xs)))"
proof (induction xs rule: rev_induct)
  case Nil
  then show ?case by (simp add: new_Map_def)
next
  case (snoc x xs)
  have "fst ` set (new_Map (map (\<lambda>x. (f x, x)) xs)) = f ` set xs"
    using arg_cong[OF snoc.IH, of set] by simp
  then show ?case
    using snoc.IH by (simp add: new_Map_snoc Map_set_keys)
qed

lemma new_Map_distinct: "distinct (map fst (new_Map (map (\<lambda>x. (f x, x)) xs)))"
  by (simp add: new_Map_keys)

lemma new_Map_last_wins:
  "(k, s) \<in> set (new_Map (map (\<lambda>x. (f x, x)) xs)) \<Longrightarrow>
   f s = k \<and> s \<in> set xs \<and> last (filter (\<lambda>x. f x = k) xs) = s"
proof (induction xs arbitrary: k s rule: rev_induct)
  case Nil
  then show ?case by (simp add: new_Map_def)
next
  case (snoc x xs)
  let ?m = "new_Map (map (\<lambda>x. (f x, x)) xs)"
  have "set (new_Map (map (\<lambda>x. (f x, x)) (xs @ [x]))) =
          insert (f x, x) {p \<in> set ?m. fst p \<noteq> f x}"
    by (simp only: map_append list.map new_Map_snoc Map_set_entries[OF new_Map_distinct])
  then have "(k, s) \<in> insert (f x, x) {p \<in> set ?m. fst p \<noteq> f x}"
    using snoc.prems by (simp only:)
  then consider "k = f x" "s = x" | "(k, s) \<in> set ?m" "k \<noteq> f x"
    by auto
  then show ?case
  proof cases
    case 1
    then show ?thesis by simp
  next
    case 2
    have ih: "f s = k \<and> s \<in> set xs \<and> last (filter (\<lambda>x. f x = k) xs) = s"
      using snoc.IH[OF 2(1)] .
    have "filter (\<lambda>y. f y = k) (xs @ [x]) = filter (\<lambda>y. f y = k) xs"
      using 2(2) by auto
    then show ?thesis
      using ih by (simp del: filter_append)
  qed
qed

lemma uniqueSources_uris:
  "map uri (uniqueSources sourceList) = rev (remdups (rev (map uri sourceList)))"
proof -
  let ?m = "new_Map (map (\<lambda>item. (uri item, item)) sourceList)"
  have "\<forall>p\<in>set ?m. fst p = uri (snd p)"
  proof
    fix p
    assume "p \<in> set ?m"
    then have "(fst p, snd p) \<in> set ?m" by simp
    then show "fst p = uri (snd p)"
      using new_Map_last_wins[of "fst p" "snd p" uri sourceList] by simp
  qed
  then have "map fst ?m = map (\<lambda>p. uri (snd p)) ?m"
    by (intro map_cong) auto
  then show ?thesis
    using new_Map_keys[of uri sourceList]
    by (simp add: uniqueSources_def Map_values_def comp_def)
qed

lemma uniqueSources_last:
  assumes "s \<in> set (uniqueSources sourceList)"
  shows "s \<in> set sourceList \<and> last (filter (\<lambda>x. uri x = uri s) sourceList) = s"
proof -
  obtain k where k: "(k, s) \<in> set (new_Map (map (\<lambda>item. (uri item, item)) sourceList))"
    using assms by (auto simp: uniqueSources_def Map_values_def)
  have "uri s = k \<and> s \<in> set sourceList \<and> last (filter (\<lambda>x. uri x = k) sourceList) = s"
    using new_Map_last_wins[OF k] .
  then show ?thesis by blast
qed

lemma example_unique:
  "uniqueSources (grounding_sources example_chunks) =
     [\<lparr>uri = ''a'', title = ''A2''\<rparr>, \<lparr>uri = ''b'', title = ''B''\<rparr>]"
  by (simp add: uniqueSources_def grounding_sources_def example_chunks_def chunk_source_def
      chunk_uri_def chunk_title_def or_default_def new_Map_def Map_values_def)

lemma remdups_snoc: "remdups (ys @ [x]) = filter (\<lambda>y. y \<noteq> x) (remdups ys) @ [x]"
  by (induction ys) auto

lemma first_occurrences_remdups: "first_occurrences xs = rev (remdups (rev xs))"
proof (induction xs)
  case Nil
  then show ?case by simp
next
  case (Cons x xs)
  show ?case
    using Cons.IH by (simp add: remdups_snoc rev_filter)
qed

lemma grounding_sources_uris:
  "map uri (grounding_sources chunks) =
     filter (\<lambda>u. u \<noteq> []) (map (\<lambda>chunk. or_default (chunk_uri chunk) []) chunks)"
  by (induction chunks) (simp_all add: grounding_sources_def chunk_source_def)

text \<open>
  Claim C2, as amended. The addresses of the surviving sources are the non-empty addresses of
  the citations (an absent \<open>web\<close> part or address counts as empty), each once, in the order of
  their first occurrences. Each surviving source is the \<^emph>\<open>last\<close> source of the input with its
  address: \<open>new Map\<close> keeps the position of the first entry of a key and the value of the last,
  so the title kept is the one of the last occurrence.
\<close>

theorem source_deduplicator_last_title_wins:
  "map uri (uniqueSources (grounding_sources chunks)) =
     first_occurrences
       (filter (\<lambda>u. u \<noteq> []) (map (\<lambda>chunk. or_default (chunk_uri chunk) []) chunks)) \<and>
   distinct (map uri (uniqueSources (grounding_sources chunks))) \<and>
   (\<forall>s\<in>set (uniqueSources (grounding_sources chunks)).
      uri s \<noteq> [] \<and> last (filter (\<lambda>x. uri x = uri s) (grounding_sources chunks)) = s)"
proof (intro conjI ballI)
  show uris: "map uri (uniqueSources (grounding_sources chunks)) =
     first_occurrences
       (filter (\<lambda>u. u \<noteq> []) (map (\<lambda>chunk. or_default (chunk_uri chunk) []) chunks))"
    by (simp only: uniqueSources_uris first_occurrences_remdups grounding_sources_uris)
  show "distinct (map uri (uniqueSources (grounding_sources chunks)))"
    by (simp only: uniqueSources_uris distinct_rev distinct_remdups)
next
  fix s
  assume s: "s \<in> set (uniqueSources (grounding_sources chunks))"
  then have "s \<in> set (grounding_sources chunks)"
    using uniqueSources_last by blast
  then show "uri s \<noteq> []"
    by (simp add: grounding_sources_def)
  show "last (filter (\<lambda>x. uri x = uri s) (grounding_sources chunks)) = s"
    using uniqueSources_last[OF s] by blast
qed

text \<open>
  The claim C2 as stated fails on the example of the specification: the source for the
  address \<open>a\<close> carries the title \<open>A2\<close> of its last occurrence, not \<open>A1\<close>.
\<close>

theorem source_deduplicator_keeps_last_title:
  "uniqueSources (grounding_sources example_chunks) =
     [\<lparr>uri = ''a'', title = ''A2''\<rparr>, \<lparr>uri = ''b'', title = ''B''\<rparr>] \<and>
   uniqueSources (grounding_sources example_chunks) \<noteq>
     [\<lparr>uri = ''a'', title = ''A1''\<rparr>, \<lparr>uri = ''b'', title = ''B''\<rparr>]"
  by (simp add: example_unique)

theorem source_deduplicator_example:
  "map uri (uniqueSources (grounding_sources example_chunks)) = [''a'', ''b''] \<and>
   \<lparr>uri = ''a'', title = ''A2''\<rparr> \<in> set (uniqueSources (grounding_sources example_chunks)) \<and>
   last (filter (\<lambda>x. uri x = ''a'') (grounding_sources example_chunks)) = \<lparr>uri = ''a'', title = ''A2''\<rparr>"
proof -
  have mem: "\<lparr>uri = ''a'', title = ''A2''\<rparr> \<in> set (uniqueSources (grounding_sources example_chunks))"
    by (simp add: example_unique)
  have "last (filter (\<lambda>x. uri x = uri \<lparr>uri = ''a'', title = ''A2''\<rparr>) (grounding_sources example_chunks))
          = \<lparr>uri = ''a'', title = ''A2''\<rparr>"
    using source_deduplicator_last_title_wins[of example_chunks, THEN conjunct2, THEN conjunct2,
        THEN bspec, OF mem]
    by blast
  then show ?thesis
    using mem by (simp add: example_unique)
qed

lemma online_result_parts:
  "snd (analyzeContentOnline parse ai docName textContent) = Inr r \<Longrightarrow>
   \<exists>response t parsed items.
     ai (OnlineRequest textContent) = Inr response \<and>
     responseText response = Some t \<and>
     extractJsonFromText parse t = Inr parsed \<and>
     get_prop parsed ''similarity'' = Inr (Some (JNum (OnlineComparisonResult.similarity r))) \<and>
     get_prop parsed ''matched_sentences'' = Inr (Some (JArr items)) \<and>
     OnlineComparisonResult.matched_sentences r = map normalizeSentence items \<and>
     sources r = uniqueSources (grounding_sources (response_chunks response)) \<and>
     OnlineComparisonResult.file1 r = docName"
  by (auto simp: analyzeContentOnline_def
      split: sum.splits option.splits json.splits)

lemma pair_result_parts:
  "snd (analyzePair parse ai doc1 doc2) = Inr p \<Longrightarrow>
   \<exists>response t parsed.
     ai (PairRequest (inline doc1) (inline doc2)) = Inr response \<and>
     responseText response = Some t \<and>
     parse (trim t) = Some parsed \<and>
     get_prop parsed ''similarity'' = Inr (ComparisonResult.similarity p) \<and>
     get_prop parsed ''matched_sentences'' = Inr (ComparisonResult.matched_sentences p)"
  by (auto simp: analyzePair_def split: sum.splits option.splits)

lemma chunk_source_title:
  "title (chunk_source chunk) =
     (case chunk_title chunk of Some t \<Rightarrow> if t \<noteq> [] then t else ''Untitled'' | None \<Rightarrow> ''Untitled'')"
  by (simp add: chunk_source_def or_default_def)

lemma chunk_source_uri:
  "uri (chunk_source chunk) \<noteq> [] \<Longrightarrow> chunk_uri chunk = Some (uri (chunk_source chunk))"
  by (auto simp: chunk_source_def or_default_def split: option.splits if_splits)

lemma chunk_source_uri_kept:
  "chunk_uri chunk = Some u \<Longrightarrow> u \<noteq> [] \<Longrightarrow> uri (chunk_source chunk) = u"
  by (simp add: chunk_source_def or_default_def)

lemma unique_sources_properties:
  "(\<forall>s\<in>set (uniqueSources (grounding_sources chunks)).
      uri s \<noteq> [] \<and> title s \<noteq> [] \<and>
      (\<exists>chunk\<in>set chunks.
         chunk_uri chunk = Some (uri s) \<and>
         title s = (case chunk_title chunk of
                      Some t \<Rightarrow> if t \<noteq> [] then t else ''Untitled''
                    | None \<Rightarrow> ''Untitled''))) \<and>
   (\<forall>chunk\<in>set chunks. \<forall>u. chunk_uri chunk = Some u \<and> u \<noteq> [] \<longrightarrow>
      u \<in> uri ` set (uniqueSources (grounding_sources chunks)))"
proof (intro conjI ballI allI impI)
  fix s
  assume "s \<in> set (uniqueSources (grounding_sources chunks))"
  then have "s \<in> set (grounding_sources chunks)"
    using uniqueSources_last by blast
  then obtain chunk where chunk: "chunk \<in> set chunks" "s = chunk_source chunk" "uri s \<noteq> []"
    by (auto simp: grounding_sources_def)
  show "uri s \<noteq> []" by (rule chunk(3))
  have t: "title s = (case chunk_title chunk of
                      Some t \<Rightarrow> if t \<noteq> [] then t else ''Untitled''
                    | None \<Rightarrow> ''Untitled'')"
    using chunk(2) chunk_source_title by simp
  then show "title s \<noteq> []"
    by (auto split: option.splits if_splits)
  have "chunk_uri chunk = Some (uri s)"
    using chunk(2,3) chunk_source_uri by simp
  then show "\<exists>chunk\<in>set chunks.
         chunk_uri chunk = Some (uri s) \<and>
         title s = (case chunk_title chunk of
                      Some t \<Rightarrow> if t \<noteq> [] then t else ''Untitled''
                    | None \<Rightarrow> ''Untitled'')"
    using chunk(1) t by blast
next
  fix chunk u
  assume chunk: "chunk \<in> set chunks" and u: "chunk_uri chunk = Some u \<and> u \<noteq> []"
  have "uri (chunk_source chunk) = u"
    using u chunk_source_uri_kept by blast
  then have "u \<in> set (map uri (grounding_sources chunks))"
    using chunk u by (force simp: grounding_sources_def)
  then have "u \<in> set (rev (remdups (rev (map uri (grounding_sources chunks)))))"
    by simp
  then have "u \<in> set (map uri (uniqueSources (grounding_sources chunks)))"
    by (simp only: uniqueSources_uris)
  then show "u \<in> uri ` set (uniqueSources (grounding_sources chunks))"
    by simp
qed

lemma sources_with_uri:
  "u \<noteq> [] \<Longrightarrow>
   filter (\<lambda>s. uri s = u) (grounding_sources chunks) =
     map chunk_source (filter (\<lambda>x. chunk_uri x = Some u) chunks)"
proof (induction chunks)
  case Nil
  then show ?case by (simp add: grounding_sources_def)
next
  case (Cons c chunks)
  have tail: "grounding_sources (c # chunks) =
      (if uri (chunk_source c) \<noteq> [] then [chunk_source c] else []) @ grounding_sources chunks"
    by (simp add: grounding_sources_def)
  have "(uri (chunk_source c) = u) = (chunk_uri c = Some u)"
    using Cons.prems by (auto simp: chunk_source_def or_default_def split: option.splits)
  then show ?case
    using Cons tail by auto
qed

lemma unique_source_from_last_citation:
  assumes "s \<in> set (uniqueSources (grounding_sources chunks))"
  shows "filter (\<lambda>x. chunk_uri x = Some (uri s)) chunks \<noteq> [] \<and>
         chunk_source (last (filter (\<lambda>x. chunk_uri x = Some (uri s)) chunks)) = s"
proof -
  have mem: "s \<in> set (grounding_sources chunks)"
    and lst: "last (filter (\<lambda>x. uri x = uri s) (grounding_sources chunks)) = s"
    using uniqueSources_last[OF assms] by blast+
  have u: "uri s \<noteq> []"
    using mem by (simp add: grounding_sources_def)
  have eq: "filter (\<lambda>x. uri x = uri s) (grounding_sources chunks) =
      map chunk_source (filter (\<lambda>x. chunk_uri x = Some (uri s)) chunks)"
    using sources_with_uri[OF u] .
  have "s \<in> set (filter (\<lambda>x. uri x = uri s) (grounding_sources chunks))"
    using mem by simp
  then have "map chunk_source (filter (\<lambda>x. chunk_uri x = Some (uri s)) chunks) \<noteq> []"
    unfolding eq by (metis empty_iff list.set(1))
  then have ne: "filter (\<lambda>x. chunk_uri x = Some (uri s)) chunks \<noteq> []"
    by (simp only: map_is_Nil_conv not_False_eq_True)
  then have "last (map chunk_source (filter (\<lambda>x. chunk_uri x = Some (uri s)) chunks)) =
      chunk_source (last (filter (\<lambda>x. chunk_uri x = Some (uri s)) chunks))"
    by (rule last_map)
  then show ?thesis
    using ne lst eq by simp
qed

text \<open>
  Claim C10, as amended. Every source of a returned online result has a non-empty address and
  a non-empty title. Citations without an address are dropped. The citations with one
  non-empty address share one source: it carries the title of the \<^emph>\<open>last\<close> of them, or
  \<open>Untitled\<close> when that last citation has no title or an empty one. So no address is lost, and
  a citation without a title is kept with the title \<open>Untitled\<close> exactly when no later citation
  has its address.
\<close>

theorem sources_have_uri_and_title:
  "snd (analyzeContentOnline parse ai docName textContent) = Inr r \<longrightarrow>
   (\<exists>response.
      ai (OnlineRequest textContent) = Inr response \<and>
      (\<forall>s\<in>set (sources r).
         uri s \<noteq> [] \<and> title s \<noteq> [] \<and>
         filter (\<lambda>x. chunk_uri x = Some (uri s)) (response_chunks response) \<noteq> [] \<and>
         title s =
           (case chunk_title (last (filter (\<lambda>x. chunk_uri x = Some (uri s))
                                           (response_chunks response))) of
              Some t \<Rightarrow> if t \<noteq> [] then t else ''Untitled''
            | None \<Rightarrow> ''Untitled'')) \<and>
      (\<forall>chunk\<in>set (response_chunks response). \<forall>u. chunk_uri chunk = Some u \<and> u \<noteq> [] \<longrightarrow>
         (\<exists>s\<in>set (sources r). uri s = u)) \<and>
      distinct (map uri (sources r)))"
proof
  assume "snd (analyzeContentOnline parse ai docName textContent) = Inr r"
  then obtain response where response: "ai (OnlineRequest textContent) = Inr response"
    and src: "sources r = uniqueSources (grounding_sources (response_chunks response))"
    using online_result_parts by blast
  let ?chunks = "response_chunks response"
  have each: "\<forall>s\<in>set (sources r).
         uri s \<noteq> [] \<and> title s \<noteq> [] \<and>
         filter (\<lambda>x. chunk_uri x = Some (uri s)) ?chunks \<noteq> [] \<and>
         title s =
           (case chunk_title (last (filter (\<lambda>x. chunk_uri x = Some (uri s)) ?chunks)) of
              Some t \<Rightarrow> if t \<noteq> [] then t else ''Untitled''
            | None \<Rightarrow> ''Untitled'')"
  proof
    fix s
    assume s: "s \<in> set (sources r)"
    then have s': "s \<in> set (uniqueSources (grounding_sources ?chunks))"
      using src by simp
    have basic: "uri s \<noteq> [] \<and> title s \<noteq> []"
      using unique_sources_properties[of ?chunks] s' by blast
    have ne: "filter (\<lambda>x. chunk_uri x = Some (uri s)) ?chunks \<noteq> []"
      and from_last: "chunk_source (last (filter (\<lambda>x. chunk_uri x = Some (uri s)) ?chunks)) = s"
      using unique_source_from_last_citation[OF s'] by blast+
    have "title s = title (chunk_source (last (filter (\<lambda>x. chunk_uri x = Some (uri s)) ?chunks)))"
      using from_last by simp
    then have "title s =
           (case chunk_title (last (filter (\<lambda>x. chunk_uri x = Some (uri s)) ?chunks)) of
              Some t \<Rightarrow> if t \<noteq> [] then t else ''Untitled''
            | None \<Rightarrow> ''Untitled'')"
      by (simp only: chunk_source_title)
    then show "uri s \<noteq> [] \<and> title s \<noteq> [] \<and>
         filter (\<lambda>x. chunk_uri x = Some (uri s)) ?chunks \<noteq> [] \<and>
         title s =
           (case chunk_title (last (filter (\<lambda>x. chunk_uri x = Some (uri s)) ?chunks)) of
              Some t \<Rightarrow> if t \<noteq> [] then t else ''Untitled''
            | None \<Rightarrow> ''Untitled'')"
      using basic ne by blast
  qed
  have kept: "\<forall>chunk\<in>set ?chunks. \<forall>u. chunk_uri chunk = Some u \<and> u \<noteq> [] \<longrightarrow>
         (\<exists>s\<in>set (sources r). uri s = u)"
    using unique_sources_properties[of ?chunks] unfolding src by blast
  have dist: "distinct (map uri (sources r))"
    unfolding src by (simp only: uniqueSources_uris distinct_rev distinct_remdups)
  show "\<exists>response.
      ai (OnlineRequest textContent) = Inr response \<and>
      (\<forall>s\<in>set (sources r).
         uri s \<noteq> [] \<and> title s \<noteq> [] \<and>
         filter (\<lambda>x. chunk_uri x = Some (uri s)) (response_chunks response) \<noteq> [] \<and>
         title s =
           (case chunk_title (last (filter (\<lambda>x. chunk_uri x = Some (uri s))
                                           (response_chunks response))) of
              Some t \<Rightarrow> if t \<noteq> [] then t else ''Untitled''
            | None \<Rightarrow> ''Untitled'')) \<and>
      (\<forall>chunk\<in>set (response_chunks response). \<forall>u. chunk_uri chunk = Some u \<and> u \<noteq> [] \<longrightarrow>
         (\<exists>s\<in>set (sources r). uri s = u)) \<and>
      distinct (map uri (sources r))"
    using response each kept dist by blast
qed

text \<open>
  The claim C10 as stated fails: the first citation has an address and no title, and yet the
  result has no source with the title \<open>Untitled\<close>; the later citation for the same address
  has replaced it.
\<close>

theorem untitled_citation_replaced_by_later_one:
  "snd (analyzeContentOnline example_parse example_untitled_first_provider ''essay.txt'' ''Some text.'') =
     Inr \<lparr>file1 = ''essay.txt'', similarity = 10, matched_sentences = [],
          sources = [\<lparr>uri = ''a'', title = ''A2''\<rparr>]\<rparr> \<and>
   \<lparr>uri = ''a'', title = ''Untitled''\<rparr> \<notin> set [\<lparr>uri = ''a'', title = ''A2''\<rparr>]"
  by (simp add: analyzeContentOnline_def example_untitled_first_provider_def
      extractJsonFromText_def json_candidate_def match_here_def fenced_def js_or_def
      sanitize_and_parse_def is_space_def example_parse_def example_object_def
      response_chunks_def uniqueSources_def grounding_sources_def chunk_source_def
      chunk_uri_def chunk_title_def or_default_def new_Map_def Map_values_def)

section \<open>Similarity: proofs\<close>

text \<open>
  Claim C3, as amended. The \<open>similarity\<close> of a result is the \<open>similarity\<close> property of the value
  parsed from the provider's answer, unchanged: in online mode it is a number (line 160 checks
  the type), in pairwise mode it is stored unchecked. No range is enforced in either mode, so
  it lies in \<open>[0, 100]\<close> exactly when the provider's value does.
\<close>

theorem similarity_is_the_providers_value:
  "(snd (analyzePair parse ai doc1 doc2) = Inr p \<longrightarrow>
      (\<exists>response t parsed.
         ai (PairRequest (inline doc1) (inline doc2)) = Inr response \<and>
         responseText response = Some t \<and>
         parse (trim t) = Some parsed \<and>
         get_prop parsed ''similarity'' = Inr (ComparisonResult.similarity p))) \<and>
   (snd (analyzeContentOnline parse ai docName textContent) = Inr r \<longrightarrow>
      (\<exists>response t parsed.
         ai (OnlineRequest textContent) = Inr response \<and>
         responseText response = Some t \<and>
         extractJsonFromText parse t = Inr parsed \<and>
         get_prop parsed ''similarity'' = Inr (Some (JNum (OnlineComparisonResult.similarity r)))))"
proof (intro conjI impI)
  assume "snd (analyzePair parse ai doc1 doc2) = Inr p"
  then show "\<exists>response t parsed.
         ai (PairRequest (inline doc1) (inline doc2)) = Inr response \<and>
         responseText response = Some t \<and>
         parse (trim t) = Some parsed \<and>
         get_prop parsed ''similarity'' = Inr (ComparisonResult.similarity p)"
    using pair_result_parts by blast
next
  assume "snd (analyzeContentOnline parse ai docName textContent) = Inr r"
  then show "\<exists>response t parsed.
         ai (OnlineRequest textContent) = Inr response \<and>
         responseText response = Some t \<and>
         extractJsonFromText parse t = Inr parsed \<and>
         get_prop parsed ''similarity'' = Inr (Some (JNum (OnlineComparisonResult.similarity r)))"
    using online_result_parts by blast
qed

section \<open>extractJsonFromText: proofs\<close>

lemma backtick_not_space: "\<not> is_space (CHR 0x60)"
  by (simp add: is_space_def)

lemma ws_then_fence_iff: "ws_then_fence s = prefix ''```'' (dropWhile is_space s)"
proof (induction s)
  case Nil
  then show ?case by simp
next
  case (Cons c s)
  show ?case
  proof (cases "is_space c")
    case True
    then have "c \<noteq> CHR 0x60"
      using backtick_not_space by auto
    then show ?thesis
      using True Cons.IH by simp
  next
    case False
    then show ?thesis by simp
  qed
qed

lemma ws_then_fence_spaces:
  "\<forall>c\<in>set ws. is_space c \<Longrightarrow> ws_then_fence (ws @ ''```'' @ post)"
  by (simp add: ws_then_fence_iff dropWhile_append3 backtick_not_space)

lemma fenced_needs_backtick: "fenced t = Some g \<Longrightarrow> \<exists>s. t = CHR 0x60 # s"
  by (cases t) (auto simp: fenced_def split: if_splits)

lemma object_span_needs_brace: "object_span t = Some g \<Longrightarrow> \<exists>s. t = CHR ''{'' # s"
  by (cases t) (auto split: if_splits)

lemma match_here_start:
  "match_here t = Some m \<Longrightarrow> \<exists>c s. t = c # s \<and> (c = CHR 0x60 \<or> c = CHR ''{'')"
  using fenced_needs_backtick object_span_needs_brace
  by (fastforce simp: match_here_def split: option.splits)

lemma regex_match_here:
  "match_here t = Some m \<Longrightarrow> regex_match t = Some m"
  by (cases t) (auto dest: match_here_start)

lemma greedy_no_brace: "CHR ''}'' \<notin> set s \<Longrightarrow> greedy_to_brace s = None"
  by (induction s) auto

lemma greedy_last_brace:
  "CHR ''}'' \<notin> set post \<Longrightarrow> greedy_to_brace (mid @ CHR ''}'' # post) = Some (mid @ [CHR ''}''])"
  by (induction mid) (simp_all add: greedy_no_brace)

lemma object_span_last_brace:
  "CHR ''}'' \<notin> set post \<Longrightarrow>
   object_span (''{'' @ mid @ ''}'' @ post) = Some (''{'' @ mid @ ''}'')"
  by (simp add: greedy_last_brace)

lemma regex_match_none:
  "(\<forall>k\<le>length t. fenced (drop k t) = None \<and> object_span (drop k t) = None) \<Longrightarrow>
   regex_match t = None"
proof (induction t)
  case Nil
  then show ?case by (simp add: match_here_def)
next
  case (Cons c t)
  have here: "match_here (c # t) = None"
    using Cons.prems[rule_format, of 0] by (simp add: match_here_def)
  have "\<forall>k\<le>length t. fenced (drop k t) = None \<and> object_span (drop k t) = None"
  proof (intro allI impI)
    fix k
    assume "k \<le> length t"
    then show "fenced (drop k t) = None \<and> object_span (drop k t) = None"
      using Cons.prems[rule_format, of "Suc k"] by simp
  qed
  then show ?case
    using here Cons.IH by simp
qed

lemma closer_spaces:
  "\<forall>c\<in>set ws. is_space c \<Longrightarrow> d = CHR ''}'' \<or> d = CHR '']'' \<Longrightarrow>
   closer_after_ws (ws @ d # ys) = Some (d, ys)"
proof (induction ws)
  case Nil
  then show ?case by (auto simp: is_space_def)
next
  case (Cons c ws)
  then show ?case by simp
qed

lemma ws_then_fence_sublist: "ws_then_fence s \<Longrightarrow> sublist ''```'' s"
proof -
  assume "ws_then_fence s"
  then have "prefix ''```'' (dropWhile is_space s)"
    by (simp add: ws_then_fence_iff)
  then have "sublist ''```'' (dropWhile is_space s)"
    by (rule prefix_imp_sublist)
  moreover have "suffix (dropWhile is_space s) s"
    by (rule suffix_dropWhile)
  ultimately show ?thesis
    using sublist_order.order.trans suffix_imp_sublist by blast
qed

lemma prefix_fence_ws: "prefix ''```'' s \<Longrightarrow> ws_then_fence s"
  by (cases s) auto

lemma lazy_group_matches: "(lazy_group s \<noteq> None) = sublist ''```'' s"
proof (induction s)
  case Nil
  then show ?case by simp
next
  case (Cons c s)
  show ?case
  proof (cases "ws_then_fence (c # s)")
    case True
    have "lazy_group (c # s) = Some []"
      using True by (simp only: lazy_group.simps if_True)
    then show ?thesis
      using ws_then_fence_sublist[OF True] by (simp only:) simp
  next
    case False
    then have "\<not> prefix ''```'' (c # s)"
      using prefix_fence_ws by blast
    then have sub: "sublist ''```'' (c # s) = sublist ''```'' s"
      by (simp only: sublist_Cons_right[of "''```''" c s]) simp
    have "lazy_group (c # s) = map_option ((#) c) (lazy_group s)"
      using False by (simp only: lazy_group.simps if_False)
    then have "(lazy_group (c # s) \<noteq> None) = (lazy_group s \<noteq> None)"
      by simp
    then show ?thesis
      using Cons.IH sub by (simp only:)
  qed
qed

lemma after_open_matches: "(after_open s \<noteq> None) = sublist ''```'' s"
proof (induction s)
  case Nil
  then show ?case by simp
next
  case (Cons c s)
  show ?case
  proof (cases "is_space c")
    case False
    then show ?thesis
      using lazy_group_matches[of "c # s"] by simp
  next
    case True
    have "sublist ''```'' s \<Longrightarrow> sublist ''```'' (c # s)"
      by (simp add: sublist_Cons_right)
    then show ?thesis
      using True Cons.IH lazy_group_matches[of "c # s"]
      by (cases "after_open s") auto
  qed
qed

lemma fenced_matches: "(fenced (drop k t) \<noteq> None) = fence_at t k"
  using after_open_matches[of "drop (k + 7) t"]
  by (simp add: fenced_def fence_at_def add.commute)

lemma greedy_matches: "(greedy_to_brace s \<noteq> None) = (CHR ''}'' \<in> set s)"
  by (induction s) (auto split: option.splits)

lemma object_span_matches: "(object_span (drop k t) \<noteq> None) = brace_span_at t k"
proof (cases "k < length t")
  case False
  then show ?thesis by (simp add: brace_span_at_def)
next
  case True
  then have "drop k t = t ! k # drop (Suc k) t"
    by (simp add: Cons_nth_drop_Suc)
  then show ?thesis
    using True greedy_matches[of "drop (Suc k) t"] by (auto simp: brace_span_at_def)
qed

lemma match_here_none:
  "\<not> fence_at t k \<Longrightarrow> \<not> brace_span_at t k \<Longrightarrow> match_here (drop k t) = None"
  using fenced_matches[of k t] object_span_matches[of k t]
  by (simp add: match_here_def)

lemma regex_match_skip_unmatched:
  "(\<forall>k<length pre. match_here (drop k (pre @ t)) = None) \<Longrightarrow>
   regex_match (pre @ t) = regex_match t"
proof (induction pre)
  case Nil
  then show ?case by simp
next
  case (Cons c pre)
  have here: "match_here (c # pre @ t) = None"
    using Cons.prems[rule_format, of 0] by simp
  have "\<forall>k<length pre. match_here (drop k (pre @ t)) = None"
  proof (intro allI impI)
    fix k
    assume "k < length pre"
    then show "match_here (drop k (pre @ t)) = None"
      using Cons.prems[rule_format, of "Suc k"] by simp
  qed
  then show ?case
    using here Cons.IH by simp
qed

lemma regex_match_first:
  assumes "\<forall>k<length pre. \<not> fence_at (pre @ t) k \<and> \<not> brace_span_at (pre @ t) k"
  shows "regex_match (pre @ t) = regex_match t"
  using assms match_here_none regex_match_skip_unmatched by blast

lemma ws_then_fence_inside:
  assumes "b \<noteq> []" "\<not> is_space (last b)"
    and "\<forall>m<length b. \<not> prefix ''```'' (drop m (b @ ws2 @ ''```''))"
  shows "\<not> ws_then_fence (b @ ws2 @ ''```'' @ post)"
proof
  assume "ws_then_fence (b @ ws2 @ ''```'' @ post)"
  then have p: "prefix ''```'' (dropWhile is_space (b @ ws2 @ ''```'' @ post))"
    by (simp add: ws_then_fence_iff)
  have "last b \<in> set b"
    using assms(1) by simp
  then have dw: "dropWhile is_space (b @ ws2 @ ''```'' @ post) =
      dropWhile is_space b @ ws2 @ ''```'' @ post"
    using assms(2) by (rule dropWhile_append1)
  define n where "n = length (takeWhile is_space b)"
  have drop: "dropWhile is_space b = drop n b"
    by (simp add: n_def dropWhile_eq_drop)
  have "takeWhile is_space b \<noteq> b"
    using \<open>last b \<in> set b\<close> assms(2) by (metis takeWhile_eq_all_conv)
  then have n: "n < length b"
    unfolding n_def using length_takeWhile_le[of is_space b]
    by (metis le_neq_implies_less takeWhile_eq_take take_all_iff order_refl)
  have "prefix ''```'' ((drop n b @ ws2 @ ''```'') @ post)"
    using p dw drop by simp
  moreover have "length ''```'' \<le> length (drop n b @ ws2 @ ''```'')"
    by simp
  ultimately have "prefix ''```'' (drop n b @ ws2 @ ''```'')"
    by (metis prefix_length_prefix prefixI append.assoc)
  then have "prefix ''```'' (drop n (b @ ws2 @ ''```''))"
    using n by simp
  then show False
    using assms(3) n by blast
qed

lemma lazy_group_contents:
  assumes "\<forall>c\<in>set ws2. is_space c"
  shows "b \<noteq> [] \<Longrightarrow> \<not> is_space (last b) \<Longrightarrow>
         \<forall>m<length b. \<not> prefix ''```'' (drop m (b @ ws2 @ ''```'')) \<Longrightarrow>
         lazy_group (b @ ws2 @ ''```'' @ post) = Some b"
proof (induction b)
  case Nil
  then show ?case by simp
next
  case (Cons c b)
  have no: "\<not> ws_then_fence ((c # b) @ ws2 @ ''```'' @ post)"
    using ws_then_fence_inside[OF Cons.prems] .
  show ?case
  proof (cases "b = []")
    case True
    have "ws_then_fence (ws2 @ ''```'' @ post)"
      using assms by (rule ws_then_fence_spaces)
    moreover obtain d rest where "ws2 @ ''```'' @ post = d # rest"
      by (cases "ws2 @ ''```'' @ post") auto
    ultimately have "lazy_group (ws2 @ ''```'' @ post) = Some []"
      by simp
    then show ?thesis
      using no True by simp
  next
    case False
    have "\<forall>m<length b. \<not> prefix ''```'' (drop m (b @ ws2 @ ''```''))"
    proof (intro allI impI)
      fix m
      assume "m < length b"
      then show "\<not> prefix ''```'' (drop m (b @ ws2 @ ''```''))"
        using Cons.prems(3)[rule_format, of "Suc m"] by simp
    qed
    then have "lazy_group (b @ ws2 @ ''```'' @ post) = Some b"
      using Cons.IH False Cons.prems(2) by simp
    then show ?thesis
      using no by simp
  qed
qed

lemma after_open_contents:
  assumes "\<forall>c\<in>set ws2. is_space c" "b \<noteq> []" "\<not> is_space (hd b)" "\<not> is_space (last b)"
    "\<forall>m<length b. \<not> prefix ''```'' (drop m (b @ ws2 @ ''```''))"
  shows "\<forall>c\<in>set ws1. is_space c \<Longrightarrow> after_open (ws1 @ b @ ws2 @ ''```'' @ post) = Some b"
proof (induction ws1)
  case Nil
  obtain c b' where b: "b = c # b'"
    using assms(2) by (cases b) auto
  have "lazy_group (b @ ws2 @ ''```'' @ post) = Some b"
    using lazy_group_contents[OF assms(1,2,4,5)] .
  then show ?case
    using b assms(3) by simp
next
  case (Cons c ws1)
  then show ?case by simp
qed

lemma after_open_empty:
  "\<forall>c\<in>set ws. is_space c \<Longrightarrow> after_open (ws @ ''```'' @ post) = Some []"
  by (induction ws) (simp_all add: is_space_def)

lemma candidate_first_fence:
  assumes "\<forall>k<length pre. \<not> fence_at (pre @ ''```json'' @ ws1 @ b @ ws2 @ ''```'' @ post) k \<and>
                           \<not> brace_span_at (pre @ ''```json'' @ ws1 @ b @ ws2 @ ''```'' @ post) k"
    "\<forall>c\<in>set ws1. is_space c" "\<forall>c\<in>set ws2. is_space c" "b \<noteq> []"
    "\<not> is_space (hd b)" "\<not> is_space (last b)"
    "\<forall>m<length b. \<not> prefix ''```'' (drop m (b @ ws2 @ ''```''))"
  shows "json_candidate (pre @ ''```json'' @ ws1 @ b @ ws2 @ ''```'' @ post) = Some b"
proof -
  let ?t = "''```json'' @ ws1 @ b @ ws2 @ ''```'' @ post"
  have "fenced ?t = Some b"
    using after_open_contents[OF assms(3,4,5,6,7) assms(2), of post]
    by (simp add: fenced_def)
  then have "match_here ?t = Some (Some b, None)"
    by (simp add: match_here_def)
  then have "regex_match ?t = Some (Some b, None)"
    by (rule regex_match_here)
  then have "regex_match (pre @ ?t) = Some (Some b, None)"
    using regex_match_first[OF assms(1)] by simp
  then show ?thesis
    using assms(4) by (simp add: json_candidate_def js_or_def)
qed

lemma candidate_empty_fence:
  assumes "\<forall>k<length pre. \<not> fence_at (pre @ ''```json'' @ ws @ ''```'' @ post) k \<and>
                           \<not> brace_span_at (pre @ ''```json'' @ ws @ ''```'' @ post) k"
    "\<forall>c\<in>set ws. is_space c"
  shows "json_candidate (pre @ ''```json'' @ ws @ ''```'' @ post) = None"
proof -
  let ?t = "''```json'' @ ws @ ''```'' @ post"
  have "fenced ?t = Some []"
    using after_open_empty[OF assms(2), of post] by (simp add: fenced_def)
  then have "match_here ?t = Some (Some [], None)"
    by (simp add: match_here_def)
  then have "regex_match ?t = Some (Some [], None)"
    by (rule regex_match_here)
  then have "regex_match (pre @ ?t) = Some (Some [], None)"
    using regex_match_first[OF assms(1)] by simp
  then show ?thesis
    by (simp add: json_candidate_def js_or_def)
qed

lemma candidate_first_brace:
  assumes "\<forall>k. \<not> fence_at (pre @ ''{'' @ mid @ ''}'' @ post) k"
    "CHR ''{'' \<notin> set pre" "CHR ''}'' \<notin> set post"
  shows "json_candidate (pre @ ''{'' @ mid @ ''}'' @ post) = Some (''{'' @ mid @ ''}'')"
proof -
  let ?t = "''{'' @ mid @ ''}'' @ post"
  have "\<forall>k<length pre. \<not> fence_at (pre @ ?t) k \<and> \<not> brace_span_at (pre @ ?t) k"
  proof (intro allI impI conjI)
    fix k
    assume k: "k < length pre"
    show "\<not> fence_at (pre @ ?t) k"
      using assms(1) by blast
    have "(pre @ ?t) ! k = pre ! k"
      using k by (simp add: nth_append)
    then have "(pre @ ?t) ! k \<noteq> CHR ''{''"
      using assms(2) k by (metis nth_mem)
    then show "\<not> brace_span_at (pre @ ?t) k"
      by (simp add: brace_span_at_def)
  qed
  then have skip: "regex_match (pre @ ?t) = regex_match ?t"
    by (rule regex_match_first)
  have "match_here ?t = Some (None, Some (''{'' @ mid @ ''}''))"
    using object_span_last_brace[OF assms(3), of mid]
    by (simp add: match_here_def fenced_def)
  then have "regex_match ?t = Some (None, Some (''{'' @ mid @ ''}''))"
    by (rule regex_match_here)
  then show ?thesis
    using skip by (simp add: json_candidate_def js_or_def)
qed

lemma regex_match_nowhere:
  assumes "\<forall>k. \<not> fence_at t k \<and> \<not> brace_span_at t k"
  shows "regex_match t = None"
proof -
  have "\<forall>k\<le>length t. fenced (drop k t) = None \<and> object_span (drop k t) = None"
    using assms fenced_matches[of _ t] object_span_matches[of _ t] by blast
  then show ?thesis
    by (rule regex_match_none)
qed

lemma closer_after_ws_Some:
  "closer_after_ws s = Some (d, ys) \<Longrightarrow>
   \<exists>ws. (\<forall>c\<in>set ws. is_space c) \<and> (d = CHR ''}'' \<or> d = CHR '']'') \<and> s = ws @ d # ys"
proof (induction s)
  case Nil
  then show ?case by simp
next
  case (Cons c s)
  show ?case
  proof (cases "is_space c \<and> closer_after_ws s \<noteq> None")
    case True
    then have "closer_after_ws s = Some (d, ys)"
      using Cons.prems by auto
    then obtain ws where "(\<forall>c\<in>set ws. is_space c) \<and> (d = CHR ''}'' \<or> d = CHR '']'') \<and> s = ws @ d # ys"
      using Cons.IH by blast
    then have "(\<forall>x\<in>set (c # ws). is_space x) \<and> (d = CHR ''}'' \<or> d = CHR '']'') \<and> c # s = (c # ws) @ d # ys"
      using True by simp
    then show ?thesis by blast
  next
    case False
    then have "(c = CHR ''}'' \<or> c = CHR '']'') \<and> d = c \<and> ys = s"
      using Cons.prems by (auto split: if_splits option.splits)
    then have "(\<forall>x\<in>set []. is_space x) \<and> (d = CHR ''}'' \<or> d = CHR '']'') \<and> c # s = [] @ d # ys"
      by simp
    then show ?thesis by blast
  qed
qed

lemma strip_comma_kept:
  assumes "\<forall>ws d ys. (\<forall>c\<in>set ws. is_space c) \<and> (d = CHR ''}'' \<or> d = CHR '']'') \<longrightarrow> s \<noteq> ws @ d # ys"
  shows "strip_trailing_commas (CHR '','' # s) = CHR '','' # strip_trailing_commas s"
proof (cases "closer_after_ws s")
  case None
  then show ?thesis by simp
next
  case (Some r)
  then obtain d ys where "closer_after_ws s = Some (d, ys)"
    by (cases r) auto
  then show ?thesis
    using closer_after_ws_Some assms by blast
qed

lemma strip_comma_removed:
  assumes "\<forall>c\<in>set ws. is_space c" "d = CHR ''}'' \<or> d = CHR '']''"
  shows "strip_trailing_commas (CHR '','' # ws @ d # ys) = d # strip_trailing_commas ys"
  using closer_spaces[OF assms, of ys] by simp

lemma no_closer_after:
  assumes "\<not> is_space c" "c \<noteq> CHR ''}''" "c \<noteq> CHR '']''"
  shows "\<forall>ws d ys. (\<forall>x\<in>set ws. is_space x) \<and> (d = CHR ''}'' \<or> d = CHR '']'') \<longrightarrow>
           c # s \<noteq> ws @ d # ys"
proof (intro allI impI)
  fix ws d ys
  assume h: "(\<forall>x\<in>set ws. is_space x) \<and> (d = CHR ''}'' \<or> d = CHR '']'')"
  show "c # s \<noteq> ws @ d # ys"
  proof (cases ws)
    case Nil
    then show ?thesis using h assms(2,3) by auto
  next
    case (Cons w ws')
    then show ?thesis using h assms(1) by auto
  qed
qed

lemma no_fence_without_backtick:
  "CHR 0x60 \<notin> set pre \<Longrightarrow> k < length pre \<Longrightarrow> \<not> fence_at (pre @ t) k"
proof
  assume pre: "CHR 0x60 \<notin> set pre" and k: "k < length pre" and f: "fence_at (pre @ t) k"
  have "drop k (pre @ t) = pre ! k # drop (Suc k) (pre @ t)"
    using k by (simp add: Cons_nth_drop_Suc[symmetric] nth_append)
  then have "pre ! k = CHR 0x60"
    using f by (simp add: fence_at_def)
  then show False
    using pre k by (metis nth_mem)
qed

lemma no_brace_span_without_brace:
  "CHR ''{'' \<notin> set pre \<Longrightarrow> k < length pre \<Longrightarrow> \<not> brace_span_at (pre @ t) k"
proof
  assume pre: "CHR ''{'' \<notin> set pre" and k: "k < length pre" and f: "brace_span_at (pre @ t) k"
  have "(pre @ t) ! k = pre ! k"
    using k by (simp add: nth_append)
  then have "pre ! k = CHR ''{''"
    using f by (simp add: brace_span_at_def)
  then show False
    using pre k by (metis nth_mem)
qed

lemma no_fence_anywhere: "CHR 0x60 \<notin> set t \<Longrightarrow> \<not> fence_at t k"
proof (cases "k < length t")
  case True
  assume "CHR 0x60 \<notin> set t"
  then show ?thesis
    using no_fence_without_backtick[of t k "[]"] True by simp
next
  case False
  then show ?thesis by (simp add: fence_at_def)
qed

lemma no_brace_span_anywhere: "CHR ''{'' \<notin> set t \<Longrightarrow> \<not> brace_span_at t k"
  unfolding brace_span_at_def by (metis nth_mem)

lemma no_fence_inside:
  "CHR 0x60 \<notin> set b \<Longrightarrow> \<forall>m<length b. \<not> prefix ''```'' (drop m (b @ rest))"
proof (intro allI impI)
  fix m
  assume b: "CHR 0x60 \<notin> set b" and m: "m < length b"
  have "drop m (b @ rest) = b ! m # drop (Suc m) (b @ rest)"
    using m by (simp add: Cons_nth_drop_Suc[symmetric] nth_append)
  moreover have "b ! m \<noteq> CHR 0x60"
    using b m by (metis nth_mem)
  ultimately show "\<not> prefix ''```'' (drop m (b @ rest))"
    by simp
qed

text \<open>
  Claim C1, as amended.
  \<^item> A text \<open>pre ```json ws1 body ws2 ``` post\<close> in which neither alternative of the pattern
    matches at an index before the fence (no fenced block and no brace span starts in
    \<open>pre\<close>), where \<open>ws1\<close> and \<open>ws2\<close> are white space, \<open>body\<close> is not empty and neither starts
    nor ends with white space, and three backticks do not begin inside \<open>body\<close>: the candidate
    is \<open>body\<close>, whatever objects \<open>body\<close> and \<open>post\<close> contain. Backticks may occur in \<open>pre\<close> and
    in \<open>body\<close>.
  \<^item> The same with nothing but white space between the fences: the call fails with the
    non-JSON-response error (the guard of line 42 refuses the empty candidate).
  \<^item> A text without any fenced block, \<open>pre { mid } post\<close> with no opening brace in \<open>pre\<close> and
    no closing brace in \<open>post\<close>: the candidate is \<open>{ mid }\<close>, the span from the first opening
    brace to the \<^emph>\<open>last\<close> closing brace of the text.
  \<^item> A text in which neither alternative matches at any index: the call fails with the
    non-JSON-response error.
  \<^item> The candidate is sanitised by the four equations of \<open>strip_trailing_commas\<close>, which fix
    it on every text: a comma followed by white space and a closing brace or bracket goes,
    together with that white space, and the scan goes on after the closing character; every
    other comma and every other character stays, and the scan goes on after it.
  \<^item> The sanitised candidate is parsed; a parse failure gives the malformed-JSON error, which
    is a different message.

  The text in which a brace span starts before a fenced block is not covered.
\<close>

theorem json_extraction:
  "((\<forall>k<length pre.
       \<not> fence_at (pre @ ''```json'' @ ws1 @ body @ ws2 @ ''```'' @ post) k \<and>
       \<not> brace_span_at (pre @ ''```json'' @ ws1 @ body @ ws2 @ ''```'' @ post) k) \<and>
    (\<forall>c\<in>set ws1. is_space c) \<and> (\<forall>c\<in>set ws2. is_space c) \<and>
    body \<noteq> [] \<and> \<not> is_space (hd body) \<and> \<not> is_space (last body) \<and>
    (\<forall>m<length body. \<not> prefix ''```'' (drop m (body @ ws2 @ ''```''))) \<longrightarrow>
      extractJsonFromText parse (pre @ ''```json'' @ ws1 @ body @ ws2 @ ''```'' @ post) =
        sanitize_and_parse parse body) \<and>
   ((\<forall>k<length pre.
       \<not> fence_at (pre @ ''```json'' @ ws1 @ ''```'' @ post) k \<and>
       \<not> brace_span_at (pre @ ''```json'' @ ws1 @ ''```'' @ post) k) \<and>
    (\<forall>c\<in>set ws1. is_space c) \<longrightarrow>
      extractJsonFromText parse (pre @ ''```json'' @ ws1 @ ''```'' @ post) =
        Inl ''Received a non-JSON response from the API.'') \<and>
   ((\<forall>k. \<not> fence_at (pre @ ''{'' @ mid @ ''}'' @ post) k) \<and>
    CHR ''{'' \<notin> set pre \<and> CHR ''}'' \<notin> set post \<longrightarrow>
      extractJsonFromText parse (pre @ ''{'' @ mid @ ''}'' @ post) =
        sanitize_and_parse parse (''{'' @ mid @ ''}'')) \<and>
   ((\<forall>k. \<not> fence_at t k \<and> \<not> brace_span_at t k) \<longrightarrow>
      extractJsonFromText parse t = Inl ''Received a non-JSON response from the API.'') \<and>
   strip_trailing_commas [] = [] \<and>
   (x \<noteq> CHR '','' \<longrightarrow> strip_trailing_commas (x # s) = x # strip_trailing_commas s) \<and>
   ((\<forall>c\<in>set ws. is_space c) \<and> (d = CHR ''}'' \<or> d = CHR '']'') \<longrightarrow>
      strip_trailing_commas (CHR '','' # ws @ d # ys) = d # strip_trailing_commas ys) \<and>
   ((\<forall>ws' d' ys'. (\<forall>c\<in>set ws'. is_space c) \<and> (d' = CHR ''}'' \<or> d' = CHR '']'') \<longrightarrow>
                   s \<noteq> ws' @ d' # ys') \<longrightarrow>
      strip_trailing_commas (CHR '','' # s) = CHR '','' # strip_trailing_commas s) \<and>
   (parse (strip_trailing_commas cand) = Some v \<longrightarrow> sanitize_and_parse parse cand = Inr v) \<and>
   (parse (strip_trailing_commas cand) = None \<longrightarrow>
      sanitize_and_parse parse cand = Inl ''API returned malformed JSON.'') \<and>
   ''API returned malformed JSON.'' \<noteq> ''Received a non-JSON response from the API.''"
proof (intro conjI impI)
  assume "(\<forall>k<length pre.
       \<not> fence_at (pre @ ''```json'' @ ws1 @ body @ ws2 @ ''```'' @ post) k \<and>
       \<not> brace_span_at (pre @ ''```json'' @ ws1 @ body @ ws2 @ ''```'' @ post) k) \<and>
    (\<forall>c\<in>set ws1. is_space c) \<and> (\<forall>c\<in>set ws2. is_space c) \<and>
    body \<noteq> [] \<and> \<not> is_space (hd body) \<and> \<not> is_space (last body) \<and>
    (\<forall>m<length body. \<not> prefix ''```'' (drop m (body @ ws2 @ ''```'')))"
  then have "json_candidate (pre @ ''```json'' @ ws1 @ body @ ws2 @ ''```'' @ post) = Some body"
    using candidate_first_fence[of pre ws1 body ws2 post] by blast
  then show "extractJsonFromText parse (pre @ ''```json'' @ ws1 @ body @ ws2 @ ''```'' @ post) =
        sanitize_and_parse parse body"
    by (simp only: extractJsonFromText_def option.case)
next
  assume "(\<forall>k<length pre.
       \<not> fence_at (pre @ ''```json'' @ ws1 @ ''```'' @ post) k \<and>
       \<not> brace_span_at (pre @ ''```json'' @ ws1 @ ''```'' @ post) k) \<and>
    (\<forall>c\<in>set ws1. is_space c)"
  then have "json_candidate (pre @ ''```json'' @ ws1 @ ''```'' @ post) = None"
    using candidate_empty_fence[of pre ws1 post] by blast
  then show "extractJsonFromText parse (pre @ ''```json'' @ ws1 @ ''```'' @ post) =
        Inl ''Received a non-JSON response from the API.''"
    by (simp only: extractJsonFromText_def option.case)
next
  assume "(\<forall>k. \<not> fence_at (pre @ ''{'' @ mid @ ''}'' @ post) k) \<and>
    CHR ''{'' \<notin> set pre \<and> CHR ''}'' \<notin> set post"
  then have "json_candidate (pre @ ''{'' @ mid @ ''}'' @ post) = Some (''{'' @ mid @ ''}'')"
    using candidate_first_brace[of pre mid post] by blast
  then show "extractJsonFromText parse (pre @ ''{'' @ mid @ ''}'' @ post) =
        sanitize_and_parse parse (''{'' @ mid @ ''}'')"
    by (simp only: extractJsonFromText_def option.case)
next
  assume "\<forall>k. \<not> fence_at t k \<and> \<not> brace_span_at t k"
  then have "regex_match t = None"
    by (rule regex_match_nowhere)
  then show "extractJsonFromText parse t = Inl ''Received a non-JSON response from the API.''"
    by (simp add: extractJsonFromText_def json_candidate_def)
next
  show "strip_trailing_commas [] = []"
    by simp
next
  assume "x \<noteq> CHR '',''"
  then show "strip_trailing_commas (x # s) = x # strip_trailing_commas s"
    by simp
next
  assume "(\<forall>c\<in>set ws. is_space c) \<and> (d = CHR ''}'' \<or> d = CHR '']'')"
  then show "strip_trailing_commas (CHR '','' # ws @ d # ys) = d # strip_trailing_commas ys"
    using strip_comma_removed[of ws d ys] by blast
next
  assume "\<forall>ws' d' ys'. (\<forall>c\<in>set ws'. is_space c) \<and> (d' = CHR ''}'' \<or> d' = CHR '']'') \<longrightarrow>
                   s \<noteq> ws' @ d' # ys'"
  then show "strip_trailing_commas (CHR '','' # s) = CHR '','' # strip_trailing_commas s"
    by (rule strip_comma_kept)
next
  assume "parse (strip_trailing_commas cand) = Some v"
  then show "sanitize_and_parse parse cand = Inr v"
    by (simp add: sanitize_and_parse_def)
next
  assume "parse (strip_trailing_commas cand) = None"
  then show "sanitize_and_parse parse cand = Inl ''API returned malformed JSON.''"
    by (simp add: sanitize_and_parse_def)
next
  show "''API returned malformed JSON.'' \<noteq> ''Received a non-JSON response from the API.''"
    by simp
qed

text \<open>
  The claim C1 as stated fails. With two objects in the text, the candidate is not the first
  top-level object but the whole span up to the last closing brace, and the call fails with
  the malformed-JSON error although the first object parses. With an empty fenced block, a
  fenced block is present, but the call fails with the non-JSON-response error instead of
  parsing its contents.
\<close>

theorem json_extraction_takes_the_whole_brace_span:
  \<open>json_candidate ''{"similarity":10,"matched_sentences":[]} and {"x":1}'' =
      Some ''{"similarity":10,"matched_sentences":[]} and {"x":1}'' \<and>
    example_parse ''{"similarity":10,"matched_sentences":[]}'' = Some (example_object 10 []) \<and>
    extractJsonFromText example_parse ''{"similarity":10,"matched_sentences":[]} and {"x":1}'' =
      Inl ''API returned malformed JSON.'' \<and>
    fence_at ''```json\<newline>```'' 0 \<and>
    json_candidate ''```json\<newline>```'' = None \<and>
    extractJsonFromText example_parse ''```json\<newline>```'' =
      Inl ''Received a non-JSON response from the API.''\<close>
  by (simp add: json_candidate_def match_here_def fenced_def js_or_def is_space_def
      extractJsonFromText_def sanitize_and_parse_def example_parse_def fence_at_def
      sublist_Cons_right)

text \<open>
  A brace span before a fenced block: the fenced block matches where it stands (at index 11),
  but \<open>text.match\<close> returns the match that starts at the brace. The comment of line 40 means
  the fenced block to be preferred.
\<close>

lemma brace_before_fence_example:
  \<open>fence_at ''{"note":0} ```json {"similarity":10,"matched_sentences":[]} ```'' 11 \<and>
    fenced (drop 11 ''{"note":0} ```json {"similarity":10,"matched_sentences":[]} ```'') =
      Some ''{"similarity":10,"matched_sentences":[]}'' \<and>
    json_candidate ''{"note":0} ```json {"similarity":10,"matched_sentences":[]} ```'' =
      Some ''{"note":0} ```json {"similarity":10,"matched_sentences":[]}''\<close>
  by (simp add: json_candidate_def match_here_def fenced_def js_or_def is_space_def
      fence_at_def sublist_Cons_right)

lemma match_here_None: "(match_here u = None) = (fenced u = None \<and> object_span u = None)"
  by (simp add: match_here_def split: option.splits)

lemma unmatched_at:
  "(\<not> fence_at t k \<and> \<not> brace_span_at t k) = (match_here (drop k t) = None)"
  by (simp only: match_here_None fenced_matches[symmetric] object_span_matches[symmetric]) simp

lemma unmatched_before:
  "(\<forall>k<length pre. \<not> fence_at (pre @ t) k \<and> \<not> brace_span_at (pre @ t) k) =
   (\<forall>k<length pre. match_here (drop k (pre @ t)) = None)"
  by (simp only: unmatched_at)

lemma unmatched_before_Nil: "(\<forall>k<length []. match_here (drop k ([] @ t)) = None) = True"
  by simp

lemma unmatched_before_Cons:
  "(\<forall>k<length (x # pre). match_here (drop k ((x # pre) @ t)) = None) =
   (match_here (x # pre @ t) = None \<and> (\<forall>k<length pre. match_here (drop k (pre @ t)) = None))"
  by (auto simp: less_Suc_eq_0_disj)

lemma unfenced_inside_Nil: "(\<forall>m<length []. \<not> prefix p (drop m ([] @ r))) = True"
  by simp

lemma unfenced_inside_Cons:
  "(\<forall>m<length (x # b). \<not> prefix p (drop m ((x # b) @ r))) =
   (\<not> prefix p (x # b @ r) \<and> (\<forall>m<length b. \<not> prefix p (drop m (b @ r))))"
  by (auto simp: less_Suc_eq_0_disj)

lemma no_fence_without_opening: "\<not> sublist ''```json'' t \<Longrightarrow> \<not> fence_at t k"
proof
  assume n: "\<not> sublist ''```json'' t" and f: "fence_at t k"
  then have "prefix ''```json'' (drop k t)"
    by (simp add: fence_at_def)
  then have "sublist ''```json'' (drop k t)"
    by (rule prefix_imp_sublist)
  moreover have "suffix (drop k t) t"
    by (rule suffix_drop)
  ultimately show False
    using n sublist_order.order.trans suffix_imp_sublist by blast
qed

theorem json_extraction_example:
  \<open>extractJsonFromText example_parse example_online_text = Inr (example_object 42 example_items) \<and>
    extractJsonFromText example_parse
        ''Use `json`: ```json {"similarity":10,"matched_sentences":["`x`"]} ```'' =
      Inr (example_object 10 [JStr ''`x`'']) \<and>
    extractJsonFromText example_parse ''```json\<newline>```'' =
      Inl ''Received a non-JSON response from the API.'' \<and>
    extractJsonFromText example_parse ''`Note`: {"similarity":10,"matched_sentences":[]} end.'' =
      Inr (example_object 10 []) \<and>
    extractJsonFromText example_parse ''I cannot answer.'' =
      Inl ''Received a non-JSON response from the API.'' \<and>
    strip_trailing_commas '',2, ]'' = '',2]'' \<and>
    sanitize_and_parse example_parse ''{oops}'' = Inl ''API returned malformed JSON.''\<close>
proof -
  let ?body = \<open>''{"similarity":42,"matched_sentences":["plain",{"sentence":"wrapped"},{"other":1},],}''\<close>
  have text_eq: "example_online_text =
      ''Result: '' @ ''```json'' @ [CHR 0x0A] @ ?body @ [CHR 0x0A] @ ''```'' @ '' Done.''"
    by (simp add: example_online_text_def)
  have strip1: \<open>strip_trailing_commas ?body =
      ''{"similarity":42,"matched_sentences":["plain",{"sentence":"wrapped"},{"other":1}]}''\<close>
    by (simp add: is_space_def)
  have before1: "\<forall>k<length ''Result: ''.
       \<not> fence_at (''Result: '' @ ''```json'' @ [CHR 0x0A] @ ?body @ [CHR 0x0A] @ ''```'' @ '' Done.'') k \<and>
       \<not> brace_span_at (''Result: '' @ ''```json'' @ [CHR 0x0A] @ ?body @ [CHR 0x0A] @ ''```'' @ '' Done.'') k"
    using no_fence_without_backtick[of "''Result: ''"] no_brace_span_without_brace[of "''Result: ''"]
    by simp
  have inside1: "\<forall>m<length ?body. \<not> prefix ''```'' (drop m (?body @ [CHR 0x0A] @ ''```''))"
    by (rule no_fence_inside) simp
  have fence_hyps: "(\<forall>k<length ''Result: ''.
       \<not> fence_at (''Result: '' @ ''```json'' @ [CHR 0x0A] @ ?body @ [CHR 0x0A] @ ''```'' @ '' Done.'') k \<and>
       \<not> brace_span_at (''Result: '' @ ''```json'' @ [CHR 0x0A] @ ?body @ [CHR 0x0A] @ ''```'' @ '' Done.'') k) \<and>
    (\<forall>c\<in>set [CHR 0x0A]. is_space c) \<and> (\<forall>c\<in>set [CHR 0x0A]. is_space c) \<and>
    ?body \<noteq> [] \<and> \<not> is_space (hd ?body) \<and> \<not> is_space (last ?body) \<and>
    (\<forall>m<length ?body. \<not> prefix ''```'' (drop m (?body @ [CHR 0x0A] @ ''```'')))"
    using before1 inside1 by (simp add: is_space_def)
  have parsed1: "sanitize_and_parse example_parse ?body = Inr (example_object 42 example_items)"
    using json_extraction[where parse = example_parse and cand = ?body
        and v = "example_object 42 example_items"]
    by (simp only: strip1) (simp add: example_parse_def)
  have first: "extractJsonFromText example_parse example_online_text =
      Inr (example_object 42 example_items)"
    using json_extraction[where pre = "''Result: ''" and ?ws1.0 = "[CHR 0x0A]"
          and ?ws2.0 = "[CHR 0x0A]" and body = ?body and parse = example_parse
          and post = "'' Done.''", THEN conjunct1, THEN mp, OF fence_hyps] parsed1
    by (simp only: text_eq)

  let ?pre2 = \<open>''Use `json`: ''\<close>
  let ?body2 = \<open>''{"similarity":10,"matched_sentences":["`x`"]}''\<close>
  have before2: "\<forall>k<length ?pre2.
       \<not> fence_at (?pre2 @ ''```json'' @ '' '' @ ?body2 @ '' '' @ ''```'' @ []) k \<and>
       \<not> brace_span_at (?pre2 @ ''```json'' @ '' '' @ ?body2 @ '' '' @ ''```'' @ []) k"
    apply (simp only: unmatched_before)
    apply (simp only: unmatched_before_Cons unmatched_before_Nil)
    apply (simp add: match_here_def fenced_def)
    done
  have inside2: "\<forall>m<length ?body2. \<not> prefix ''```'' (drop m (?body2 @ '' '' @ ''```''))"
    apply (simp only: unfenced_inside_Cons unfenced_inside_Nil)
    apply simp
    done
  have fence_hyps2: "(\<forall>k<length ?pre2.
       \<not> fence_at (?pre2 @ ''```json'' @ '' '' @ ?body2 @ '' '' @ ''```'' @ []) k \<and>
       \<not> brace_span_at (?pre2 @ ''```json'' @ '' '' @ ?body2 @ '' '' @ ''```'' @ []) k) \<and>
    (\<forall>c\<in>set '' ''. is_space c) \<and> (\<forall>c\<in>set '' ''. is_space c) \<and>
    ?body2 \<noteq> [] \<and> \<not> is_space (hd ?body2) \<and> \<not> is_space (last ?body2) \<and>
    (\<forall>m<length ?body2. \<not> prefix ''```'' (drop m (?body2 @ '' '' @ ''```'')))"
    using before2 inside2 by (simp add: is_space_def)
  have parsed2: "sanitize_and_parse example_parse ?body2 = Inr (example_object 10 [JStr ''`x`''])"
    by (simp add: sanitize_and_parse_def is_space_def example_parse_def)
  have second: \<open>extractJsonFromText example_parse
        ''Use `json`: ```json {"similarity":10,"matched_sentences":["`x`"]} ```'' =
      Inr (example_object 10 [JStr ''`x`''])\<close>
    using json_extraction[where pre = ?pre2 and ?ws1.0 = "'' ''"
          and ?ws2.0 = "'' ''" and body = ?body2 and parse = example_parse
          and post = "[]", THEN conjunct1, THEN mp, OF fence_hyps2] parsed2
    by simp

  have empty_hyps: "(\<forall>k<length ([] :: string).
       \<not> fence_at ([] @ ''```json'' @ [CHR 0x0A] @ ''```'' @ []) k \<and>
       \<not> brace_span_at ([] @ ''```json'' @ [CHR 0x0A] @ ''```'' @ []) k) \<and>
    (\<forall>c\<in>set [CHR 0x0A]. is_space c)"
    by (simp add: is_space_def)
  have third: \<open>extractJsonFromText example_parse ''```json\<newline>```'' =
      Inl ''Received a non-JSON response from the API.''\<close>
    using json_extraction[where pre = "[]" and ?ws1.0 = "[CHR 0x0A]" and parse = example_parse
          and post = "[]", THEN conjunct2, THEN conjunct1, THEN mp, OF empty_hyps]
    by simp

  let ?mid = \<open>''"similarity":10,"matched_sentences":[]''\<close>
  have "\<not> sublist ''```json'' (''`Note`: '' @ ''{'' @ ?mid @ ''}'' @ '' end.'')"
    by (simp add: sublist_Cons_right)
  then have brace_hyps: "(\<forall>k. \<not> fence_at (''`Note`: '' @ ''{'' @ ?mid @ ''}'' @ '' end.'') k) \<and>
      CHR ''{'' \<notin> set ''`Note`: '' \<and> CHR ''}'' \<notin> set '' end.''"
    using no_fence_without_opening by simp
  have parsed4: "sanitize_and_parse example_parse (''{'' @ ?mid @ ''}'') = Inr (example_object 10 [])"
    by (simp add: sanitize_and_parse_def is_space_def example_parse_def)
  have fourth: \<open>extractJsonFromText example_parse ''`Note`: {"similarity":10,"matched_sentences":[]} end.'' =
      Inr (example_object 10 [])\<close>
    using json_extraction[where pre = "''`Note`: ''" and parse = example_parse and mid = ?mid
          and post = "'' end.''", THEN conjunct2, THEN conjunct2, THEN conjunct1, THEN mp,
          OF brace_hyps] parsed4
    by simp

  have "\<forall>k. \<not> fence_at ''I cannot answer.'' k \<and> \<not> brace_span_at ''I cannot answer.'' k"
    using no_fence_anywhere[of "''I cannot answer.''"] no_brace_span_anywhere[of "''I cannot answer.''"]
    by simp
  then have fifth: "extractJsonFromText example_parse ''I cannot answer.'' =
      Inl ''Received a non-JSON response from the API.''"
    using json_extraction[where parse = example_parse and t = "''I cannot answer.''"]
    by blast

  have kept_hyp: "\<forall>ws' d' ys'. (\<forall>c\<in>set ws'. is_space c) \<and> (d' = CHR ''}'' \<or> d' = CHR '']'') \<longrightarrow>
                   ''2, ]'' \<noteq> ws' @ d' # ys'"
    by (rule no_closer_after) (simp_all add: is_space_def)
  have kept: "strip_trailing_commas (CHR '','' # ''2, ]'') = CHR '','' # strip_trailing_commas ''2, ]''"
    using json_extraction[where s = "''2, ]''"] kept_hyp by blast
  have two: "strip_trailing_commas (CHR ''2'' # '', ]'') = CHR ''2'' # strip_trailing_commas '', ]''"
    using json_extraction[where x = "CHR ''2''" and s = "'', ]''"] by simp
  have "(\<forall>c\<in>set '' ''. is_space c) \<and> (CHR '']'' = CHR ''}'' \<or> CHR '']'' = CHR '']'')"
    by (simp add: is_space_def)
  then have removed: "strip_trailing_commas (CHR '','' # '' '' @ CHR '']'' # []) =
      CHR '']'' # strip_trailing_commas []"
    using json_extraction[where ws = "'' ''" and d = "CHR '']''" and ys = "[]"] by blast
  have nil: "strip_trailing_commas [] = []"
    using json_extraction by blast
  have sixth: "strip_trailing_commas '',2, ]'' = '',2]''"
    using kept two removed nil by simp

  have "example_parse (strip_trailing_commas ''{oops}'') = None"
    by (simp add: example_parse_def)
  then have seventh: "sanitize_and_parse example_parse ''{oops}'' = Inl ''API returned malformed JSON.''"
    using json_extraction[where parse = example_parse and cand = "''{oops}''"]
    by blast
  show ?thesis
    using first second third fourth fifth sixth seventh by blast
qed

section \<open>The online result: proofs\<close>

lemma normalize_string: "normalizeSentence (JStr s) = \<lparr>sentence = s\<rparr>"
  by (simp add: normalizeSentence_def)

lemma normalize_object:
  "map_of properties ''sentence'' = Some (JStr s) \<Longrightarrow>
   normalizeSentence (JObj properties) = \<lparr>sentence = s\<rparr>"
  by (simp add: normalizeSentence_def)

lemma normalize_other:
  "(\<forall>s. item \<noteq> JStr s) \<Longrightarrow>
   (\<forall>properties s. \<not> (item = JObj properties \<and> map_of properties ''sentence'' = Some (JStr s))) \<Longrightarrow>
   normalizeSentence item = \<lparr>sentence = ''[Error: Could not parse sentence]''\<rparr>"
  by (cases item) (auto simp: normalizeSentence_def split: option.splits json.splits)

lemma online_sentences:
  "ai (OnlineRequest textContent) = Inr response \<Longrightarrow>
   responseText response = Some t \<Longrightarrow>
   extractJsonFromText parse t = Inr parsed \<Longrightarrow>
   get_prop parsed ''similarity'' = Inr (Some (JNum sim)) \<Longrightarrow>
   get_prop parsed ''matched_sentences'' = Inr (Some (JArr items)) \<Longrightarrow>
   \<exists>r. snd (analyzeContentOnline parse ai docName textContent) = Inr r \<and>
       OnlineComparisonResult.matched_sentences r = map normalizeSentence items"
  by (simp add: analyzeContentOnline_def)

lemma example_online_candidate:
  \<open>json_candidate example_online_text =
     Some ''{"similarity":42,"matched_sentences":["plain",{"sentence":"wrapped"},{"other":1},],}''\<close>
  by (simp add: example_online_text_def json_candidate_def match_here_def fenced_def js_or_def
      is_space_def)

lemma example_online_extract:
  "extractJsonFromText example_parse example_online_text = Inr (example_object 42 example_items)"
  by (simp add: extractJsonFromText_def example_online_candidate sanitize_and_parse_def
      is_space_def example_parse_def)

lemma example_online_sources:
  "uniqueSources (grounding_sources example_response_chunks) =
     [\<lparr>uri = ''a'', title = ''A2''\<rparr>, \<lparr>uri = ''b'', title = ''B''\<rparr>,
      \<lparr>uri = ''c'', title = ''Untitled''\<rparr>]"
  by (simp add: uniqueSources_def grounding_sources_def example_response_chunks_def
      example_chunks_def chunk_source_def
      chunk_uri_def chunk_title_def or_default_def new_Map_def Map_values_def)

lemma example_online_result:
  "snd (analyzeContentOnline example_parse example_online_provider ''essay.txt'' ''Some text.'') =
     Inr \<lparr>file1 = ''essay.txt'', similarity = 42,
          matched_sentences =
            [\<lparr>sentence = ''plain''\<rparr>, \<lparr>sentence = ''wrapped''\<rparr>,
             \<lparr>sentence = ''[Error: Could not parse sentence]''\<rparr>],
          sources =
            [\<lparr>uri = ''a'', title = ''A2''\<rparr>, \<lparr>uri = ''b'', title = ''B''\<rparr>,
             \<lparr>uri = ''c'', title = ''Untitled''\<rparr>]\<rparr>"
  by (simp add: analyzeContentOnline_def example_online_provider_def example_online_extract
      example_object_def example_items_def normalizeSentence_def response_chunks_def
      example_online_sources)

text \<open>
  The claim C3 as stated fails: a provider that answers with the similarity 150 gives a result
  with the similarity 150, in both modes.
\<close>

theorem similarity_out_of_range:
  \<open>snd (analyzePair example_parse
          (\<lambda>request. Inr \<lparr>responseText = Some ''{"similarity":150,"matched_sentences":[]}'',
                             groundingChunks = None\<rparr>)
          (example_documents ! 0) (example_documents ! 1)) =
     Inr \<lparr>ComparisonResult.file1 = ''a.txt'', file2 = ''b.txt'',
          ComparisonResult.similarity = Some (JNum 150),
          ComparisonResult.matched_sentences = Some (JArr [])\<rparr> \<and>
   snd (analyzeContentOnline example_parse
          (\<lambda>request. Inr \<lparr>responseText = Some ''{"similarity":150,"matched_sentences":[]}'',
                             groundingChunks = None\<rparr>)
          ''a.txt'' ''Some text.'') =
     Inr \<lparr>file1 = ''a.txt'', similarity = 150, matched_sentences = [], sources = []\<rparr> \<and>
   \<not> (150 \<le> (100 :: real))\<close>
  by (simp add: analyzePair_def analyzeContentOnline_def example_parse_def example_object_def
      example_documents_def trim_def is_space_def extractJsonFromText_def json_candidate_def
      match_here_def fenced_def js_or_def sanitize_and_parse_def response_chunks_def
      uniqueSources_def grounding_sources_def new_Map_def Map_values_def)

text \<open>
  Claim C7. A bare string \<open>s\<close> normalises to \<open>{sentence: s}\<close>; an object whose \<open>sentence\<close>
  property is a string normalises to that string; every other element normalises to the
  sentinel. The coercion never makes the result fail: whenever the answer parses to a value
  with a numeric \<open>similarity\<close> and an array \<open>matched_sentences\<close>, \<open>analyzeContentOnline\<close> returns a
  result whose sentences are the normalised elements.
\<close>

theorem sentence_coercion:
  "normalizeSentence (JStr s) = \<lparr>sentence = s\<rparr> \<and>
   (map_of properties ''sentence'' = Some (JStr s) \<longrightarrow>
      normalizeSentence (JObj properties) = \<lparr>sentence = s\<rparr>) \<and>
   ((\<forall>s'. item \<noteq> JStr s') \<and>
    (\<forall>ps s'. \<not> (item = JObj ps \<and> map_of ps ''sentence'' = Some (JStr s'))) \<longrightarrow>
      normalizeSentence item = \<lparr>sentence = ''[Error: Could not parse sentence]''\<rparr>) \<and>
   (ai (OnlineRequest textContent) = Inr response \<and>
    responseText response = Some t \<and>
    extractJsonFromText parse t = Inr parsed \<and>
    get_prop parsed ''similarity'' = Inr (Some (JNum sim)) \<and>
    get_prop parsed ''matched_sentences'' = Inr (Some (JArr items)) \<longrightarrow>
      (\<exists>r. snd (analyzeContentOnline parse ai docName textContent) = Inr r \<and>
           OnlineComparisonResult.matched_sentences r = map normalizeSentence items))"
  using normalize_string normalize_object normalize_other online_sentences
  by blast

theorem sentence_coercion_example:
  "map normalizeSentence example_items =
     [\<lparr>sentence = ''plain''\<rparr>, \<lparr>sentence = ''wrapped''\<rparr>,
      \<lparr>sentence = ''[Error: Could not parse sentence]''\<rparr>] \<and>
   (\<exists>r. snd (analyzeContentOnline example_parse example_online_provider ''essay.txt'' ''Some text.'') = Inr r \<and>
        OnlineComparisonResult.matched_sentences r =
          [\<lparr>sentence = ''plain''\<rparr>, \<lparr>sentence = ''wrapped''\<rparr>,
           \<lparr>sentence = ''[Error: Could not parse sentence]''\<rparr>])"
proof -
  note c = sentence_coercion
    [of "''plain''" "[(''sentence'', JStr ''wrapped'')]" "JObj [(''other'', JNum 1)]"
        example_online_provider "''Some text.''"
        "\<lparr>responseText = Some example_online_text, groundingChunks = Some example_response_chunks\<rparr>"
        example_online_text example_parse "example_object 42 example_items" 42 example_items
        "''essay.txt''"]
  have plain: "normalizeSentence (JStr ''plain'') = \<lparr>sentence = ''plain''\<rparr>"
    using c by blast
  have "map_of [(''sentence'', JStr ''wrapped'')] ''sentence'' = Some (JStr ''wrapped'')"
    by simp
  then have wrapped: "normalizeSentence (JObj [(''sentence'', JStr ''wrapped'')]) = \<lparr>sentence = ''wrapped''\<rparr>"
    using sentence_coercion[of "''wrapped''" "[(''sentence'', JStr ''wrapped'')]"] by blast
  have "(\<forall>s'. JObj [(''other'', JNum 1)] \<noteq> JStr s') \<and>
    (\<forall>ps s'. \<not> (JObj [(''other'', JNum 1)] = JObj ps \<and> map_of ps ''sentence'' = Some (JStr s')))"
    by auto
  then have other: "normalizeSentence (JObj [(''other'', JNum 1)]) =
      \<lparr>sentence = ''[Error: Could not parse sentence]''\<rparr>"
    using c by blast
  have items: "map normalizeSentence example_items =
     [\<lparr>sentence = ''plain''\<rparr>, \<lparr>sentence = ''wrapped''\<rparr>,
      \<lparr>sentence = ''[Error: Could not parse sentence]''\<rparr>]"
    using plain wrapped other by (simp add: example_items_def)
  have "example_online_provider (OnlineRequest ''Some text.'') =
          Inr \<lparr>responseText = Some example_online_text, groundingChunks = Some example_response_chunks\<rparr> \<and>
        responseText \<lparr>responseText = Some example_online_text, groundingChunks = Some example_response_chunks\<rparr>
          = Some example_online_text \<and>
        extractJsonFromText example_parse example_online_text = Inr (example_object 42 example_items) \<and>
        get_prop (example_object 42 example_items) ''similarity'' = Inr (Some (JNum 42)) \<and>
        get_prop (example_object 42 example_items) ''matched_sentences'' = Inr (Some (JArr example_items))"
    by (simp add: example_online_provider_def example_online_extract example_object_def)
  then have "\<exists>r. snd (analyzeContentOnline example_parse example_online_provider ''essay.txt'' ''Some text.'') = Inr r \<and>
           OnlineComparisonResult.matched_sentences r = map normalizeSentence example_items"
    using c by blast
  then show ?thesis
    using items by simp
qed

theorem sources_have_uri_and_title_example:
  "snd (analyzeContentOnline example_parse example_online_provider ''essay.txt'' ''Some text.'') =
     Inr \<lparr>file1 = ''essay.txt'', similarity = 42,
          matched_sentences =
            [\<lparr>sentence = ''plain''\<rparr>, \<lparr>sentence = ''wrapped''\<rparr>,
             \<lparr>sentence = ''[Error: Could not parse sentence]''\<rparr>],
          sources =
            [\<lparr>uri = ''a'', title = ''A2''\<rparr>, \<lparr>uri = ''b'', title = ''B''\<rparr>,
             \<lparr>uri = ''c'', title = ''Untitled''\<rparr>]\<rparr> \<and>
   (\<exists>response.
      example_online_provider (OnlineRequest ''Some text.'') = Inr response \<and>
      filter (\<lambda>x. chunk_uri x = Some ''c'') (response_chunks response) \<noteq> [] \<and>
      ''Untitled'' =
        (case chunk_title (last (filter (\<lambda>x. chunk_uri x = Some ''c'') (response_chunks response))) of
           Some t \<Rightarrow> if t \<noteq> [] then t else ''Untitled''
         | None \<Rightarrow> ''Untitled'') \<and>
      ''A2'' =
        (case chunk_title (last (filter (\<lambda>x. chunk_uri x = Some ''a'') (response_chunks response))) of
           Some t \<Rightarrow> if t \<noteq> [] then t else ''Untitled''
         | None \<Rightarrow> ''Untitled''))"
proof -
  note run = example_online_result
  obtain response where response: "example_online_provider (OnlineRequest ''Some text.'') = Inr response"
    and all: "\<forall>s\<in>set [\<lparr>uri = ''a'', title = ''A2''\<rparr>, \<lparr>uri = ''b'', title = ''B''\<rparr>,
             \<lparr>uri = ''c'', title = ''Untitled''\<rparr>].
         uri s \<noteq> [] \<and> title s \<noteq> [] \<and>
         filter (\<lambda>x. chunk_uri x = Some (uri s)) (response_chunks response) \<noteq> [] \<and>
         title s =
           (case chunk_title (last (filter (\<lambda>x. chunk_uri x = Some (uri s))
                                           (response_chunks response))) of
              Some t \<Rightarrow> if t \<noteq> [] then t else ''Untitled''
            | None \<Rightarrow> ''Untitled'')"
    using sources_have_uri_and_title[THEN mp, OF run] by auto
  have "filter (\<lambda>x. chunk_uri x = Some ''c'') (response_chunks response) \<noteq> [] \<and>
      ''Untitled'' =
        (case chunk_title (last (filter (\<lambda>x. chunk_uri x = Some ''c'') (response_chunks response))) of
           Some t \<Rightarrow> if t \<noteq> [] then t else ''Untitled''
         | None \<Rightarrow> ''Untitled'') \<and>
      ''A2'' =
        (case chunk_title (last (filter (\<lambda>x. chunk_uri x = Some ''a'') (response_chunks response))) of
           Some t \<Rightarrow> if t \<noteq> [] then t else ''Untitled''
         | None \<Rightarrow> ''Untitled'')"
    using all by simp
  then show ?thesis
    using run response by blast
qed

theorem similarity_is_the_providers_value_example:
  "snd (analyzeContentOnline example_parse example_online_provider ''essay.txt'' ''Some text.'') =
     Inr \<lparr>file1 = ''essay.txt'', similarity = 42,
          matched_sentences =
            [\<lparr>sentence = ''plain''\<rparr>, \<lparr>sentence = ''wrapped''\<rparr>,
             \<lparr>sentence = ''[Error: Could not parse sentence]''\<rparr>],
          sources =
            [\<lparr>uri = ''a'', title = ''A2''\<rparr>, \<lparr>uri = ''b'', title = ''B''\<rparr>,
             \<lparr>uri = ''c'', title = ''Untitled''\<rparr>]\<rparr> \<and>
   (\<exists>response t parsed.
      example_online_provider (OnlineRequest ''Some text.'') = Inr response \<and>
      responseText response = Some t \<and>
      extractJsonFromText example_parse t = Inr parsed \<and>
      get_prop parsed ''similarity'' = Inr (Some (JNum 42)))"
proof -
  note run = example_online_result
  show ?thesis
    using similarity_is_the_providers_value[THEN conjunct2, THEN mp, OF run] run
    by simp
qed

section \<open>The online run: proofs\<close>

lemma example_online_item:
  "k \<noteq> 1 \<Longrightarrow>
   snd (online_item example_parse (example_online_failing_provider k) doc) =
     Inr (OnlineResult
       \<lparr>file1 = name doc, similarity = 42,
        matched_sentences =
          [\<lparr>sentence = ''plain''\<rparr>, \<lparr>sentence = ''wrapped''\<rparr>,
           \<lparr>sentence = ''[Error: Could not parse sentence]''\<rparr>],
        sources =
          [\<lparr>uri = ''a'', title = ''A2''\<rparr>, \<lparr>uri = ''b'', title = ''B''\<rparr>,
           \<lparr>uri = ''c'', title = ''Untitled''\<rparr>]\<rparr>)"
  by (simp add: online_item_def extractTextFromDoc_def example_online_failing_provider_def
      trim_def is_space_def analyzeContentOnline_def example_online_provider_def
      example_online_extract example_object_def example_items_def normalizeSentence_def
      response_chunks_def example_online_sources)

lemma example_online_item_fails:
  "snd (online_item example_parse (example_online_failing_provider 1) doc) =
     Inl (''Failed to extract text from file: '' @ name doc @ ''. API Error: quota exceeded'')"
  by (simp add: online_item_def extractTextFromDoc_def example_online_failing_provider_def
      extract_failure_def)

lemma example_online_run_fails:
  "snd (checkPlagiarism example_parse example_online_failing_provider [2, 0, 1]
          example_documents True) =
     Some (Inl ''Failed to extract text from file: b.txt. API Error: quota exceeded'')"
  unfolding checkPlagiarism_online
  using example_online_item_fails[of "example_documents ! 1"]
  by (simp add: example_documents_def Promise_all_def example_online_item
      enumerate_eq_zip upt_conv_Cons)

theorem one_failed_call_fails_the_run_example:
  "snd (checkPlagiarism example_parse example_failing_provider [2, 0, 1] example_documents False) =
     Some (Inl ''Failed to analyze documents: a.txt and c.txt. The API returned an error.'') \<and>
   (\<exists>k<length (generate_pairs example_documents).
      snd (checkPlagiarism example_parse example_failing_provider [2, 0, 1] example_documents False) =
        Some (Inl (''Failed to analyze documents: '' @
                   name (fst (generate_pairs example_documents ! k)) @ '' and '' @
                   name (snd (generate_pairs example_documents ! k)) @
                   ''. The API returned an error.''))) \<and>
   snd (checkPlagiarism example_parse example_online_failing_provider [2, 0, 1]
          example_documents True) =
     Some (Inl ''Failed to extract text from file: b.txt. API Error: quota exceeded'') \<and>
   (\<exists>k<length example_documents. \<exists>m.
      snd (checkPlagiarism example_parse example_online_failing_provider [2, 0, 1]
             example_documents True) =
        Some (Inl (''Failed to extract text from file: '' @ name (example_documents ! k) @
                   ''. API Error: '' @ m)))"
proof -
  have settles: "1 \<in> set [2, 0, 1::nat]"
    by simp
  have j: "1 < length (generate_pairs example_documents)"
    by (simp add: example_pairs)
  have fails: "example_failing_provider 1
     (PairRequest (inline (fst (generate_pairs example_documents ! 1)))
                  (inline (snd (generate_pairs example_documents ! 1)))) = Inl ''quota exceeded''"
    by (simp add: example_failing_provider_def)
  have pairwise: "\<exists>k<length (generate_pairs example_documents).
      snd (checkPlagiarism example_parse example_failing_provider [2, 0, 1] example_documents False) =
        Some (Inl (''Failed to analyze documents: '' @
                   name (fst (generate_pairs example_documents ! k)) @ '' and '' @
                   name (snd (generate_pairs example_documents ! k)) @
                   ''. The API returned an error.''))"
    using one_failed_call_fails_the_run
      [of 1 "[2, 0, 1]" example_documents example_failing_provider "''quota exceeded''" example_parse,
       THEN conjunct1]
      settles j fails
    by blast
  have j': "1 < length example_documents"
    by (simp add: example_documents_def)
  have fails': "example_online_failing_provider 1 (ExtractRequest (inline (example_documents ! 1))) =
      Inl ''quota exceeded''"
    by (simp add: example_online_failing_provider_def)
  obtain k e where k: "k < length example_documents"
    and run: "snd (checkPlagiarism example_parse example_online_failing_provider [2, 0, 1]
                example_documents True) = Some (Inl e)"
    and e: "e = ''Failed to analyze document '' @ name (example_documents ! k) @
              '' against online sources. The API returned an error.'' \<or>
        (\<exists>m. e = ''Failed to extract text from file: '' @ name (example_documents ! k) @
                  ''. API Error: '' @ m)"
    using one_failed_call_fails_the_run
      [of 1 "[2, 0, 1]" example_documents example_online_failing_provider "''quota exceeded''"
          example_parse, THEN conjunct2]
      settles j' fails'
    by blast
  have "e = ''Failed to extract text from file: b.txt. API Error: quota exceeded''"
    using run example_online_run_fails by simp
  then have "\<exists>m. e = ''Failed to extract text from file: '' @ name (example_documents ! k) @
                  ''. API Error: '' @ m"
    using e by auto
  then have online: "\<exists>k<length example_documents. \<exists>m.
      snd (checkPlagiarism example_parse example_online_failing_provider [2, 0, 1]
             example_documents True) =
        Some (Inl (''Failed to extract text from file: '' @ name (example_documents ! k) @
                   ''. API Error: '' @ m))"
    using k run by blast
  show ?thesis
    using pairwise online example_run_fails example_online_run_fails by blast
qed

end
